theory Spec2Isabelle
  imports Main
begin

section \<open>The proxy cache of nuclide-rpc (lib/main.js)\<close>

text \<open>
  The module keeps two process-wide maps, \<open>definitionsCache\<close> and \<open>proxiesCache\<close>, and
  three exported functions work on them: \<open>getDefinitions\<close>, \<open>getProxy\<close> and
  \<open>createProxyFactory\<close>. Everything else the module calls (the parser, the generator,
  Node's \<open>Module\<close> and \<open>fs\<close>, \<open>nuclideUri\<close>) lives outside the file and is a parameter
  of the model, collected in the record \<open>env\<close>.

  The module-level state is passed explicitly. A thrown exception is the \<open>Inl\<close> branch of
  a sum; the state that comes back with it is the state at the moment of the throw.
  JavaScript objects have identity: every object a call creates takes its number from the
  allocation counter \<open>next_id\<close>. Calls to the collaborators are appended to \<open>trace\<close>.
\<close>

subsection \<open>Data\<close>

datatype error =
    ModuleNotFound
  | ENOENT
  | DefinitionParseError
  | UnsupportedTypeError
  | NameCollisionError
  | LoadError
  | TypeError
  | AssertionError
  | RemoteCallError

type_synonym filesystem = "string \<rightharpoonup> string"

text \<open>A parsed \<open>Definitions\<close> object: its identity and what the parser produced.\<close>

record 'd definitions =
  def_id :: nat
  def_body :: 'd

text \<open>
  The values main.js passes in calls into the generated module: the \<open>RpcContext\<close> of a
  connection, \<open>Rx.Observable\<close> and \<open>trackOperationTiming\<close>.
\<close>

datatype 'ctx arg = Context 'ctx | RxObservable | TrackOperationTiming

text \<open>
  What a compiled proxy module exports: a function (\<open>ex_call\<close>, the \<open>ProxyFactory\<close>) that
  carries a method \<open>inject\<close> (\<open>ex_inject\<close>, \<open>None\<close> when it returns normally). Both take
  the list of actual arguments, as a JavaScript function does.
\<close>

record ('ctx, 'p) exports =
  ex_inject :: "'ctx arg list \<Rightarrow> error option"
  ex_call :: "'ctx arg list \<Rightarrow> error + 'p"

record ('ctx, 'p) proxy_factory =
  fac_id :: nat
  fac_exports :: "('ctx, 'p) exports"

text \<open>A Node \<open>Module\<close> object, with the fields \<open>loadCodeAsModule\<close> sets.\<close>

record 'x module =
  m_filename :: string
  m_id :: string
  m_paths :: "string list"
  m_exports :: 'x

text \<open>The object a factory application returns: its identity and its contents.\<close>

record 'p proxy =
  proxy_id :: nat
  proxy_body :: 'p

text \<open>
  One entry per call to a collaborator. \<open>EvParse\<close> records the \<open>definitionPath\<close> on whose
  behalf \<open>loadDefinitions\<close> runs the parser, then the two actual arguments.
\<close>

datatype 'ctx event =
    EvResolve string
  | EvRead string
  | EvParse string string string
  | EvGenerate string bool nat
  | EvCompile "unit module" string string
  | EvInject nat "'ctx arg list"
  | EvApply nat "'ctx arg list"

record ('d, 'ctx, 'p) state =
  definitionsCache :: "string \<rightharpoonup> 'd definitions"
  proxiesCache :: "string \<rightharpoonup> ('ctx, 'p) proxy_factory"
  fs :: filesystem
  next_id :: nat
  trace :: "'ctx event list"

text \<open>
  The collaborators. \<open>resolveFilename\<close> is \<open>Module._resolveFilename\<close> applied to the
  path and the caller's module; it looks at the file system. \<open>parsePathName p\<close> is
  \<open>nuclideUri.parsePath(p).name\<close>, \<open>uriJoin\<close> is \<open>nuclideUri.join\<close>, \<open>dirname\<close> is
  \<open>__dirname\<close>, and \<open>compile\<close> is \<open>Module.prototype._compile\<close>, giving the exports the
  compiled code leaves in the module.
\<close>

record ('d, 'ctx, 'p) env =
  resolveFilename :: "filesystem \<Rightarrow> string \<Rightarrow> error + string"
  parseServiceDefinition :: "string \<Rightarrow> string \<Rightarrow> error + 'd"
  generateProxy :: "string \<Rightarrow> bool \<Rightarrow> 'd definitions \<Rightarrow> error + string"
  parsePathName :: "string \<Rightarrow> string"
  uriJoin :: "string \<Rightarrow> string \<Rightarrow> string"
  dirname :: string
  compile :: "unit module \<Rightarrow> string \<Rightarrow> string \<Rightarrow> error + ('ctx, 'p) exports"

subsection \<open>Operations\<close>

definition log :: "'ctx event \<Rightarrow> ('d, 'ctx, 'p) state \<Rightarrow> ('d, 'ctx, 'p) state" where
  "log e s = s\<lparr>trace := trace s @ [e]\<rparr>"

text \<open>\<open>fs.readFileSync(path, 'utf8')\<close>: the contents, or a throw when there is no file.\<close>

definition readFileSync :: "filesystem \<Rightarrow> string \<Rightarrow> error + string" where
  "readFileSync files path = (case files path of None \<Rightarrow> Inl ENOENT | Some text \<Rightarrow> Inr text)"

definition resolvePath ::
  "('d, 'ctx, 'p) env \<Rightarrow> string \<Rightarrow> ('d, 'ctx, 'p) state \<Rightarrow> (error + string) \<times> ('d, 'ctx, 'p) state"
where
  "resolvePath env definitionPath s =
     (resolveFilename env (fs s) definitionPath, log (EvResolve definitionPath) s)"

text \<open>
  Modelled from the spec: the parser \<open>parseServiceDefinition\<close> (lib/service-parser) is not
  part of main.js. It is the parameter of that name, and a call of it that returns is taken
  to build a new \<open>Definitions\<close> object, which therefore gets a fresh identity. The body of
  \<open>loadDefinitions\<close> itself follows main.js: resolve, read, parse.
\<close>

definition loadDefinitions ::
  "('d, 'ctx, 'p) env \<Rightarrow> string \<Rightarrow> ('d, 'ctx, 'p) state
    \<Rightarrow> (error + 'd definitions) \<times> ('d, 'ctx, 'p) state"
where
  "loadDefinitions env definitionPath s =
     (case resolvePath env definitionPath s of
        (Inl e, s1) \<Rightarrow> (Inl e, s1)
      | (Inr resolvedPath, s1) \<Rightarrow>
          (let s2 = log (EvRead resolvedPath) s1 in
           case readFileSync (fs s2) resolvedPath of
             Inl e \<Rightarrow> (Inl e, s2)
           | Inr source \<Rightarrow>
               (let s3 = log (EvParse definitionPath resolvedPath source) s2 in
                case parseServiceDefinition env resolvedPath source of
                  Inl e \<Rightarrow> (Inl e, s3)
                | Inr body \<Rightarrow>
                    (Inr \<lparr>def_id = next_id s3, def_body = body\<rparr>,
                     s3\<lparr>next_id := Suc (next_id s3)\<rparr>))))"

text \<open>
  \<open>Map.has\<close> is a test against \<open>None\<close>: by their Flow types the caches hold objects, never
  \<open>null\<close>, so \<open>invariant(result != null)\<close> can only fail on a missing key.
\<close>

definition getDefinitions ::
  "('d, 'ctx, 'p) env \<Rightarrow> string \<Rightarrow> ('d, 'ctx, 'p) state
    \<Rightarrow> (error + 'd definitions) \<times> ('d, 'ctx, 'p) state"
where
  "getDefinitions env definitionPath s =
     (case (if definitionsCache s definitionPath = None
            then (case loadDefinitions env definitionPath s of
                    (Inl e, s1) \<Rightarrow> (Some e, s1)
                  | (Inr defs, s1) \<Rightarrow>
                      (None, s1\<lparr>definitionsCache := (definitionsCache s1)(definitionPath \<mapsto> defs)\<rparr>))
            else (None, s)) of
        (Some e, s1) \<Rightarrow> (Inl e, s1)
      | (None, s1) \<Rightarrow>
          (case definitionsCache s1 definitionPath of
             None \<Rightarrow> (Inl AssertionError, s1)
           | Some result \<Rightarrow> (Inr result, s1)))"

text \<open>
  \<open>new Module()\<close> with \<open>filename\<close>, \<open>id\<close> and \<open>paths\<close> set as the source sets them, then
  \<open>_compile\<close>. The exports object of the new module takes a fresh identity.
\<close>

definition loadCodeAsModule ::
  "('d, 'ctx, 'p) env \<Rightarrow> string \<Rightarrow> string \<Rightarrow> ('d, 'ctx, 'p) state
    \<Rightarrow> (error + ('ctx, 'p) proxy_factory module) \<times> ('d, 'ctx, 'p) state"
where
  "loadCodeAsModule env code filename s =
     (let m = \<lparr>m_filename = uriJoin env (dirname env) filename,
                m_id = uriJoin env (dirname env) filename,
                m_paths = [],
                m_exports = ()\<rparr>;
          s1 = log (EvCompile m code filename) s
      in case compile env m code filename of
           Inl e \<Rightarrow> (Inl e, s1)
         | Inr ex \<Rightarrow>
             (Inr \<lparr>m_filename = m_filename m, m_id = m_id m, m_paths = m_paths m,
                   m_exports = \<lparr>fac_id = next_id s1, fac_exports = ex\<rparr>\<rparr>,
              s1\<lparr>next_id := Suc (next_id s1)\<rparr>))"

definition createProxyFactory ::
  "('d, 'ctx, 'p) env \<Rightarrow> string \<Rightarrow> bool \<Rightarrow> string \<Rightarrow> ('d, 'ctx, 'p) state
    \<Rightarrow> (error + ('ctx, 'p) proxy_factory) \<times> ('d, 'ctx, 'p) state"
where
  "createProxyFactory env serviceName preserveFunctionNames definitionPath s =
     (case getDefinitions env definitionPath s of
        (Inl e, s1) \<Rightarrow> (Inl e, s1)
      | (Inr defs, s1) \<Rightarrow>
          (let s2 = log (EvGenerate serviceName preserveFunctionNames (def_id defs)) s1 in
           case generateProxy env serviceName preserveFunctionNames defs of
             Inl e \<Rightarrow> (Inl e, s2)
           | Inr code \<Rightarrow>
               (let filename = parsePathName env definitionPath @ ''Proxy.js'' in
                case loadCodeAsModule env code filename s2 of
                  (Inl e, s3) \<Rightarrow> (Inl e, s3)
                | (Inr m, s3) \<Rightarrow>
                    (let args = [RxObservable, TrackOperationTiming];
                         s4 = log (EvInject (fac_id (m_exports m)) args) s3
                     in case ex_inject (fac_exports (m_exports m)) args of
                          Some e \<Rightarrow> (Inl e, s4)
                        | None \<Rightarrow> (Inr (m_exports m), s4)))))"

text \<open>
  Modelled from the spec: the factory is code written by the generator (lib/proxy-generator),
  which is not part of main.js. Its behaviour is the \<open>ex_call\<close> the loader returned, and an
  application that returns is taken to build a new object, which therefore gets a fresh
  identity. The body of \<open>getProxy\<close> itself follows main.js: look up, build and store on a
  miss, read back, assert, apply.
\<close>

definition getProxy ::
  "('d, 'ctx, 'p) env \<Rightarrow> string \<Rightarrow> string \<Rightarrow> 'ctx \<Rightarrow> ('d, 'ctx, 'p) state
    \<Rightarrow> (error + 'p proxy) \<times> ('d, 'ctx, 'p) state"
where
  "getProxy env serviceName definitionPath clientObject s =
     (case (if proxiesCache s definitionPath = None
            then (case createProxyFactory env serviceName False definitionPath s of
                    (Inl e, s1) \<Rightarrow> (Some e, s1)
                  | (Inr f, s1) \<Rightarrow>
                      (None, s1\<lparr>proxiesCache := (proxiesCache s1)(definitionPath \<mapsto> f)\<rparr>))
            else (None, s)) of
        (Some e, s1) \<Rightarrow> (Inl e, s1)
      | (None, s1) \<Rightarrow>
          (case proxiesCache s1 definitionPath of
             None \<Rightarrow> (Inl AssertionError, s1)
           | Some factory \<Rightarrow>
               (let args = [Context clientObject];
                    s2 = log (EvApply (fac_id factory) args) s1
                in case ex_call (fac_exports factory) args of
                     Inl e \<Rightarrow> (Inl e, s2)
                   | Inr body \<Rightarrow>
                       (Inr \<lparr>proxy_id = next_id s2, proxy_body = body\<rparr>,
                        s2\<lparr>next_id := Suc (next_id s2)\<rparr>))))"

subsection \<open>Sequences of calls\<close>

text \<open>
  What can happen to the module between two calls of interest: a call to one of the three
  exported functions, with any arguments, or a change to a file (\<open>None\<close> removes it).
\<close>

datatype 'ctx call =
    GetDefinitions string
  | GetProxy string string 'ctx
  | CreateProxyFactory string bool string
  | FileChange string "string option"

fun step :: "('d, 'ctx, 'p) env \<Rightarrow> 'ctx call \<Rightarrow> ('d, 'ctx, 'p) state \<Rightarrow> ('d, 'ctx, 'p) state" where
  "step env (GetDefinitions definitionPath) s = snd (getDefinitions env definitionPath s)"
| "step env (GetProxy serviceName definitionPath clientObject) s =
     snd (getProxy env serviceName definitionPath clientObject s)"
| "step env (CreateProxyFactory serviceName preserveFunctionNames definitionPath) s =
     snd (createProxyFactory env serviceName preserveFunctionNames definitionPath s)"
| "step env (FileChange path text) s = s\<lparr>fs := (fs s)(path := text)\<rparr>"

fun run :: "('d, 'ctx, 'p) env \<Rightarrow> 'ctx call list \<Rightarrow> ('d, 'ctx, 'p) state \<Rightarrow> ('d, 'ctx, 'p) state" where
  "run env [] s = s"
| "run env (c # cs) s = run env cs (step env c s)"

text \<open>The state of a freshly loaded module: both caches empty.\<close>

definition init :: "filesystem \<Rightarrow> ('d, 'ctx, 'p) state" where
  "init files = \<lparr>definitionsCache = Map.empty, proxiesCache = Map.empty, fs = files,
                  next_id = 0, trace = []\<rparr>"

subsection \<open>Readings of the trace\<close>

text \<open>How often the parser has run on behalf of a given \<open>definitionPath\<close>.\<close>

fun is_parse_of :: "string \<Rightarrow> 'ctx event \<Rightarrow> bool" where
  "is_parse_of p (EvParse q _ _) = (p = q)"
| "is_parse_of p _ = False"

definition parse_count :: "string \<Rightarrow> 'ctx event list \<Rightarrow> nat" where
  "parse_count p evs = length (filter (is_parse_of p) evs)"

text \<open>
  Further readings: the \<open>preserveFunctionNames\<close> flags of the calls to the generator, the
  file names handed to the loader, the argument lists of the factory applications and of
  the calls to \<open>inject\<close>, and how often the parser was given a resolved file.
\<close>

definition generate_flags :: "'ctx event list \<Rightarrow> bool list" where
  "generate_flags evs = concat (map (\<lambda>e. case e of EvGenerate _ b _ \<Rightarrow> [b] | _ \<Rightarrow> []) evs)"

definition compiled_filenames :: "'ctx event list \<Rightarrow> string list" where
  "compiled_filenames evs = concat (map (\<lambda>e. case e of EvCompile _ _ f \<Rightarrow> [f] | _ \<Rightarrow> []) evs)"

definition application_args :: "'ctx event list \<Rightarrow> 'ctx arg list list" where
  "application_args evs = concat (map (\<lambda>e. case e of EvApply _ args \<Rightarrow> [args] | _ \<Rightarrow> []) evs)"

definition inject_args :: "'ctx event list \<Rightarrow> 'ctx arg list list" where
  "inject_args evs = concat (map (\<lambda>e. case e of EvInject _ args \<Rightarrow> [args] | _ \<Rightarrow> []) evs)"

definition file_parse_count :: "string \<Rightarrow> 'ctx event list \<Rightarrow> nat" where
  "file_parse_count resolvedPath evs =
     length (filter (\<lambda>e. case e of EvParse _ r _ \<Rightarrow> r = resolvedPath | _ \<Rightarrow> False) evs)"

text \<open>The events of the registry: resolving, reading and parsing, nothing else.\<close>

definition registry_events :: "'ctx event list \<Rightarrow> bool" where
  "registry_events evs \<longleftrightarrow>
     generate_flags evs = [] \<and> compiled_filenames evs = []
     \<and> application_args evs = [] \<and> inject_args evs = []"

subsection \<open>Entries under other keys\<close>

text \<open>
  The state with the entries under one key of both caches replaced, as a test can do through
  the exported \<open>__test__\<close>.
\<close>

definition poke ::
  "string \<Rightarrow> 'd definitions option \<Rightarrow> ('ctx, 'p) proxy_factory option
    \<Rightarrow> ('d, 'ctx, 'p) state \<Rightarrow> ('d, 'ctx, 'p) state"
where
  "poke key defs factory s =
     s\<lparr>definitionsCache := (definitionsCache s)(key := defs),
       proxiesCache := (proxiesCache s)(key := factory)\<rparr>"

subsection \<open>What the loaded code can require\<close>

text \<open>
  Modelled from the documentation of Node.js (Modules: "All together" and "Loading from the
  global folders"); Node is not code of this repository. \<open>require(request)\<close> inside a module
  \<open>m\<close>: a core module is returned whatever \<open>m\<close> is; a request that starts with \<open>/\<close>,
  \<open>./\<close> or \<open>../\<close> is a path, taken against the directory of \<open>m.filename\<close>; any other
  request is a bare name, looked for in the folders of \<open>m.paths\<close> and then in the global
  folders. A candidate is tried as a file, with the known extensions, then as a directory
  with an index file (\<open>package.json\<close> is left out). The lists of core modules and global
  folders and the two path functions belong to the runtime.
\<close>

record runtime =
  core_modules :: "string list"
  global_folders :: "string list"
  path_dirname :: "string \<Rightarrow> string"
  path_resolve :: "string \<Rightarrow> string \<Rightarrow> string"

definition is_path_request :: "string \<Rightarrow> bool" where
  "is_path_request request \<longleftrightarrow>
     take 1 request = ''/'' \<or> take 2 request = ''./'' \<or> take 3 request = ''../''"

definition load_as_file :: "filesystem \<Rightarrow> string \<Rightarrow> string option" where
  "load_as_file files x =
     find (\<lambda>p. files p \<noteq> None) [x, x @ ''.js'', x @ ''.json'', x @ ''.node'']"

definition load_as_directory :: "filesystem \<Rightarrow> string \<Rightarrow> string option" where
  "load_as_directory files x =
     find (\<lambda>p. files p \<noteq> None) [x @ ''/index.js'', x @ ''/index.json'', x @ ''/index.node'']"

definition load_path :: "filesystem \<Rightarrow> string \<Rightarrow> string option" where
  "load_path files x =
     (case load_as_file files x of Some found \<Rightarrow> Some found | None \<Rightarrow> load_as_directory files x)"

fun load_from_folders :: "runtime \<Rightarrow> filesystem \<Rightarrow> string list \<Rightarrow> string \<Rightarrow> string option" where
  "load_from_folders rt files [] request = None"
| "load_from_folders rt files (dir # dirs) request =
     (case load_path files (path_resolve rt dir request) of
        Some found \<Rightarrow> Some found
      | None \<Rightarrow> load_from_folders rt files dirs request)"

definition require_resolve :: "runtime \<Rightarrow> filesystem \<Rightarrow> 'x module \<Rightarrow> string \<Rightarrow> error + string" where
  "require_resolve rt files m request =
     (if request \<in> set (core_modules rt) then Inr request
      else case (if is_path_request request
                 then load_path files (path_resolve rt (path_dirname rt (m_filename m)) request)
                 else load_from_folders rt files (m_paths m @ global_folders rt) request) of
             None \<Rightarrow> Inl ModuleNotFound
           | Some found \<Rightarrow> Inr found)"

subsection \<open>What a call leaves in place\<close>

text \<open>
  \<open>keeps s s'\<close>: every cache entry of \<open>s\<close> is still there in \<open>s'\<close>, unchanged, no identity
  is handed out twice, and the parser has not run again for a path that \<open>s\<close> has cached.
\<close>

definition keeps :: "('d, 'ctx, 'p) state \<Rightarrow> ('d, 'ctx, 'p) state \<Rightarrow> bool" where
  "keeps s s' \<longleftrightarrow>
     definitionsCache s \<subseteq>\<^sub>m definitionsCache s' \<and> proxiesCache s \<subseteq>\<^sub>m proxiesCache s'
     \<and> next_id s \<le> next_id s'
     \<and> (\<forall>p \<in> dom (definitionsCache s). parse_count p (trace s') = parse_count p (trace s))"

subsection \<open>Sample collaborators\<close>

text \<open>
  A small instance of the collaborators, used to run the model on concrete inputs: paths
  resolve by dropping a leading \<open>./\<close>, the parser rejects an empty file, the generator
  rejects the definition \<open>?\<close>, and the compiled factory returns its code paired with the
  context it is applied to.
\<close>

definition sample_env :: "(string, nat, string \<times> nat) env" where
  "sample_env =
     \<lparr>resolveFilename = (\<lambda>files p.
          let q = (if take 2 p = ''./'' then drop 2 p else p)
          in if files q = None then Inl ModuleNotFound else Inr q),
      parseServiceDefinition = (\<lambda>resolvedPath source.
          if source = [] then Inl DefinitionParseError else Inr source),
      generateProxy = (\<lambda>serviceName preserveFunctionNames defs.
          if def_body defs = ''?'' then Inl UnsupportedTypeError
          else Inr (serviceName @ '':'' @ def_body defs)),
      parsePathName = takeWhile (\<lambda>c. c \<noteq> CHR ''.''),
      uriJoin = (\<lambda>a b. a @ ''/'' @ b),
      dirname = ''lib'',
      compile = (\<lambda>m code filename.
          if code = ''Bad:f()'' then Inl LoadError
          else Inr \<lparr>ex_inject = (\<lambda>args. None),
                    ex_call = (\<lambda>args. case args of
                                 [Context c] \<Rightarrow> Inr (code, c)
                               | _ \<Rightarrow> Inl TypeError)\<rparr>)\<rparr>"

definition sample_files :: filesystem where
  "sample_files = [''Foo.def'' \<mapsto> ''f()'', ''Bar.def'' \<mapsto> ''f()'', ''Odd.def'' \<mapsto> ''?'']"

text \<open>
  A runtime and a file tree to run the resolver on: the definitions of the sample, a sibling
  of main.js in \<open>lib\<close>, and a package under \<open>lib/node_modules\<close>. There are no global folders.
\<close>

definition sample_runtime :: runtime where
  "sample_runtime =
     \<lparr>core_modules = [''assert'', ''fs'', ''module'', ''path''],
      global_folders = [],
      path_dirname = (\<lambda>p. rev (drop 1 (dropWhile (\<lambda>c. c \<noteq> CHR ''/'') (rev p)))),
      path_resolve = (\<lambda>dir request.
          if take 1 request = ''/'' then request
          else dir @ ''/'' @ (if take 2 request = ''./'' then drop 2 request else request))\<rparr>"

definition sample_tree :: filesystem where
  "sample_tree =
     [''Foo.def'' \<mapsto> ''f()'',
      ''lib/service-parser.js'' \<mapsto> ''parser'',
      ''lib/node_modules/rxjs/index.js'' \<mapsto> ''rx'']"

section \<open>Properties\<close>

subsection \<open>Auxiliary facts\<close>

lemma log_simps [simp]:
  "trace (log e s) = trace s @ [e]"
  "definitionsCache (log e s) = definitionsCache s"
  "proxiesCache (log e s) = proxiesCache s"
  "fs (log e s) = fs s"
  "next_id (log e s) = next_id s"
  by (simp_all add: log_def)

lemma parse_count_simps [simp]:
  "parse_count p [] = 0"
  "parse_count p (xs @ ys) = parse_count p xs + parse_count p ys"
  "parse_count p (e # es) = (if is_parse_of p e then 1 else 0) + parse_count p es"
  by (simp_all add: parse_count_def)

text \<open>loadDefinitions touches neither cache nor the files.\<close>

lemma loadDefinitions_frame:
  assumes "loadDefinitions env q s = (r, s')"
  shows "definitionsCache s' = definitionsCache s"
    and "proxiesCache s' = proxiesCache s"
    and "fs s' = fs s"
    and "next_id s \<le> next_id s'"
  using assms
  by (auto simp: loadDefinitions_def resolvePath_def Let_def split: sum.splits prod.splits)

lemma loadDefinitions_parse_count:
  assumes "loadDefinitions env q s = (r, s')" and "q \<noteq> p"
  shows "parse_count p (trace s') = parse_count p (trace s)"
  using assms
  by (auto simp: loadDefinitions_def resolvePath_def Let_def split: sum.splits prod.splits)

lemma getDefinitions_hit:
  "definitionsCache s p = Some d \<Longrightarrow> getDefinitions env p s = (Inr d, s)"
  by (simp add: getDefinitions_def)

lemma getDefinitions_cases:
  assumes "getDefinitions env q s = (r, s')"
  obtains
    (hit) d where "definitionsCache s q = Some d" "r = Inr d" "s' = s"
  | (miss_ok) d s1 where "definitionsCache s q = None" "loadDefinitions env q s = (Inr d, s1)"
      "r = Inr d" "s' = s1\<lparr>definitionsCache := (definitionsCache s1)(q \<mapsto> d)\<rparr>"
  | (miss_err) e where "definitionsCache s q = None" "loadDefinitions env q s = (Inl e, s')"
      "r = Inl e"
  using assms
  by (auto simp: getDefinitions_def split: if_splits sum.splits prod.splits option.splits)

lemma loadDefinitions_ok:
  assumes "loadDefinitions env q s = (Inr d, s')"
  shows "\<exists>rp src. resolveFilename env (fs s) q = Inr rp \<and> readFileSync (fs s) rp = Inr src
           \<and> parseServiceDefinition env rp src = Inr (def_body d) \<and> def_id d = next_id s
           \<and> s' = s\<lparr>next_id := Suc (next_id s),
                     trace := trace s @ [EvResolve q, EvRead rp, EvParse q rp src]\<rparr>"
  using assms
  by (auto simp: loadDefinitions_def resolvePath_def log_def Let_def split: sum.splits prod.splits)

lemma loadDefinitions_parse_count_self:
  assumes "loadDefinitions env q s = (Inr d, s')"
  shows "parse_count q (trace s') = Suc (parse_count q (trace s))"
  using loadDefinitions_ok [OF assms] by auto

lemma loadCodeAsModule_cases:
  assumes "loadCodeAsModule env code filename s = (r, s')"
  obtains
    (load_err) e m where
      "m = \<lparr>m_filename = uriJoin env (dirname env) filename,
            m_id = uriJoin env (dirname env) filename, m_paths = [], m_exports = ()\<rparr>"
      "compile env m code filename = Inl e" "r = Inl e"
      "s' = log (EvCompile m code filename) s"
  | (load_ok) ex m where
      "m = \<lparr>m_filename = uriJoin env (dirname env) filename,
            m_id = uriJoin env (dirname env) filename, m_paths = [], m_exports = ()\<rparr>"
      "compile env m code filename = Inr ex"
      "r = Inr \<lparr>m_filename = m_filename m, m_id = m_id m, m_paths = [],
                m_exports = \<lparr>fac_id = next_id s, fac_exports = ex\<rparr>\<rparr>"
      "s' = (log (EvCompile m code filename) s)\<lparr>next_id := Suc (next_id s)\<rparr>"
  using assms
  by (auto simp: loadCodeAsModule_def Let_def split: sum.splits)

lemma createProxyFactory_cases:
  assumes "createProxyFactory env n b q s = (r, s')"
  obtains
    (defs_err) e where "getDefinitions env q s = (Inl e, s')" "r = Inl e"
  | (gen_err) defs s1 e where "getDefinitions env q s = (Inr defs, s1)"
      "generateProxy env n b defs = Inl e" "r = Inl e"
      "s' = log (EvGenerate n b (def_id defs)) s1"
  | (load_err) defs s1 code e where "getDefinitions env q s = (Inr defs, s1)"
      "generateProxy env n b defs = Inr code"
      "loadCodeAsModule env code (parsePathName env q @ ''Proxy.js'')
         (log (EvGenerate n b (def_id defs)) s1) = (Inl e, s')" "r = Inl e"
  | (inject_err) defs s1 code m s3 e where "getDefinitions env q s = (Inr defs, s1)"
      "generateProxy env n b defs = Inr code"
      "loadCodeAsModule env code (parsePathName env q @ ''Proxy.js'')
         (log (EvGenerate n b (def_id defs)) s1) = (Inr m, s3)"
      "ex_inject (fac_exports (m_exports m)) [RxObservable, TrackOperationTiming] = Some e"
      "r = Inl e"
      "s' = log (EvInject (fac_id (m_exports m)) [RxObservable, TrackOperationTiming]) s3"
  | (ok) defs s1 code m s3 where "getDefinitions env q s = (Inr defs, s1)"
      "generateProxy env n b defs = Inr code"
      "loadCodeAsModule env code (parsePathName env q @ ''Proxy.js'')
         (log (EvGenerate n b (def_id defs)) s1) = (Inr m, s3)"
      "ex_inject (fac_exports (m_exports m)) [RxObservable, TrackOperationTiming] = None"
      "r = Inr (m_exports m)"
      "s' = log (EvInject (fac_id (m_exports m)) [RxObservable, TrackOperationTiming]) s3"
  using assms unfolding createProxyFactory_def Let_def
  by (auto split: sum.splits prod.splits option.splits)

lemma getProxy_cases:
  assumes "getProxy env n q c s = (r, s')"
  obtains
    (create_err) e where "proxiesCache s q = None"
      "createProxyFactory env n False q s = (Inl e, s')" "r = Inl e"
  | (apply_err) f s1 e where
      "proxiesCache s q = Some f \<and> s1 = s
       \<or> proxiesCache s q = None
          \<and> (\<exists>s0. createProxyFactory env n False q s = (Inr f, s0)
                \<and> s1 = s0\<lparr>proxiesCache := (proxiesCache s0)(q \<mapsto> f)\<rparr>)"
      "ex_call (fac_exports f) [Context c] = Inl e" "r = Inl e"
      "s' = log (EvApply (fac_id f) [Context c]) s1"
  | (apply_ok) f s1 body where
      "proxiesCache s q = Some f \<and> s1 = s
       \<or> proxiesCache s q = None
          \<and> (\<exists>s0. createProxyFactory env n False q s = (Inr f, s0)
                \<and> s1 = s0\<lparr>proxiesCache := (proxiesCache s0)(q \<mapsto> f)\<rparr>)"
      "ex_call (fac_exports f) [Context c] = Inr body"
      "r = Inr \<lparr>proxy_id = next_id s1, proxy_body = body\<rparr>"
      "s' = (log (EvApply (fac_id f) [Context c]) s1)\<lparr>next_id := Suc (next_id s1)\<rparr>"
  using assms unfolding getProxy_def Let_def
  by (auto split: if_splits sum.splits prod.splits option.splits)

lemma keeps_refl [simp]: "keeps s s"
  by (simp add: keeps_def)

lemma keeps_trans: "keeps s t \<Longrightarrow> keeps t u \<Longrightarrow> keeps s u"
proof -
  assume st: "keeps s t" and tu: "keeps t u"
  have "parse_count p (trace u) = parse_count p (trace s)" if "p \<in> dom (definitionsCache s)" for p
  proof -
    from st have "dom (definitionsCache s) \<subseteq> dom (definitionsCache t)"
      by (simp add: keeps_def map_le_implies_dom_le)
    with that have "p \<in> dom (definitionsCache t)" by blast
    with tu have "parse_count p (trace u) = parse_count p (trace t)"
      by (simp add: keeps_def)
    with st that show ?thesis by (simp add: keeps_def)
  qed
  moreover from st tu have "definitionsCache s \<subseteq>\<^sub>m definitionsCache u"
    unfolding keeps_def by (blast intro: map_le_trans)
  moreover from st tu have "proxiesCache s \<subseteq>\<^sub>m proxiesCache u"
    unfolding keeps_def by (blast intro: map_le_trans)
  moreover from st tu have "next_id s \<le> next_id u"
    by (simp add: keeps_def)
  ultimately show ?thesis by (simp add: keeps_def)
qed

lemma keeps_log: "\<forall>p \<in> dom (definitionsCache s). \<not> is_parse_of p e \<Longrightarrow> keeps s (log e s)"
  by (simp add: keeps_def)

lemma keeps_defs: "keeps s s' \<Longrightarrow> definitionsCache s p = Some d \<Longrightarrow> definitionsCache s' p = Some d"
  by (auto simp: keeps_def map_le_def dom_def)

lemma keeps_proxies: "keeps s s' \<Longrightarrow> proxiesCache s p = Some f \<Longrightarrow> proxiesCache s' p = Some f"
  by (auto simp: keeps_def map_le_def dom_def)

lemma keeps_parse_count:
  "keeps s s' \<Longrightarrow> definitionsCache s p = Some d \<Longrightarrow> parse_count p (trace s') = parse_count p (trace s)"
  by (auto simp: keeps_def)

lemma keeps_le: "keeps s s' \<Longrightarrow> next_id s \<le> next_id s'"
  by (simp add: keeps_def)

lemma loadDefinitions_keeps:
  assumes "loadDefinitions env q s = (r, s')" and "definitionsCache s q = None"
  shows "keeps s s'"
proof -
  have "parse_count p (trace s') = parse_count p (trace s)" if "p \<in> dom (definitionsCache s)" for p
  proof -
    from that assms(2) have "q \<noteq> p" by auto
    with assms(1) show ?thesis by (rule loadDefinitions_parse_count)
  qed
  with loadDefinitions_frame [OF assms(1)] show ?thesis
    by (simp add: keeps_def)
qed

lemma getDefinitions_keeps:
  assumes "getDefinitions env q s = (r, s')"
  shows "keeps s s'"
  using assms
proof (cases rule: getDefinitions_cases)
  case (hit d)
  then show ?thesis by simp
next
  case (miss_ok d s1)
  from loadDefinitions_keeps [OF miss_ok(2) miss_ok(1)] have k: "keeps s s1" .
  have "definitionsCache s \<subseteq>\<^sub>m (definitionsCache s1)(q \<mapsto> d)"
    using k miss_ok(1) by (auto simp: keeps_def map_le_def dom_def)
  with k show ?thesis
    by (simp add: keeps_def miss_ok(4))
next
  case (miss_err e)
  then show ?thesis by (simp add: loadDefinitions_keeps)
qed

lemma loadCodeAsModule_keeps:
  assumes "loadCodeAsModule env code filename s = (r, s')"
  shows "keeps s s'"
  using assms
  by (cases rule: loadCodeAsModule_cases) (simp_all add: keeps_def)

lemma createProxyFactory_keeps:
  assumes "createProxyFactory env n b q s = (r, s')"
  shows "keeps s s'"
  using assms
proof (cases rule: createProxyFactory_cases)
  case (defs_err e)
  then show ?thesis by (simp add: getDefinitions_keeps)
next
  case (gen_err defs s1 e)
  have "keeps s1 s'" unfolding gen_err(4) by (rule keeps_log) simp
  with getDefinitions_keeps [OF gen_err(1)] show ?thesis by (rule keeps_trans)
next
  case (load_err defs s1 code e)
  have "keeps s1 (log (EvGenerate n b (def_id defs)) s1)" by (rule keeps_log) simp
  from keeps_trans [OF this loadCodeAsModule_keeps [OF load_err(3)]]
  have "keeps s1 s'" .
  with getDefinitions_keeps [OF load_err(1)] show ?thesis by (rule keeps_trans)
next
  case (inject_err defs s1 code m s3 e)
  have "keeps s1 (log (EvGenerate n b (def_id defs)) s1)" by (rule keeps_log) simp
  from keeps_trans [OF this loadCodeAsModule_keeps [OF inject_err(3)]]
  have "keeps s1 s3" .
  moreover have "keeps s3 s'" unfolding inject_err(6) by (rule keeps_log) simp
  ultimately have "keeps s1 s'" by (rule keeps_trans)
  with getDefinitions_keeps [OF inject_err(1)] show ?thesis by (rule keeps_trans)
next
  case (ok defs s1 code m s3)
  have "keeps s1 (log (EvGenerate n b (def_id defs)) s1)" by (rule keeps_log) simp
  from keeps_trans [OF this loadCodeAsModule_keeps [OF ok(3)]]
  have "keeps s1 s3" .
  moreover have "keeps s3 s'" unfolding ok(6) by (rule keeps_log) simp
  ultimately have "keeps s1 s'" by (rule keeps_trans)
  with getDefinitions_keeps [OF ok(1)] show ?thesis by (rule keeps_trans)
qed

lemma keeps_cache_factory:
  assumes "keeps s s0" and "proxiesCache s q = None"
  shows "keeps s (s0\<lparr>proxiesCache := (proxiesCache s0)(q \<mapsto> f)\<rparr>)"
  using assms by (auto simp: keeps_def map_le_def dom_def)

lemma getProxy_before_apply:
  assumes "proxiesCache s q = Some f \<and> s1 = s
       \<or> proxiesCache s q = None
          \<and> (\<exists>s0. createProxyFactory env n False q s = (Inr f, s0)
                \<and> s1 = s0\<lparr>proxiesCache := (proxiesCache s0)(q \<mapsto> f)\<rparr>)"
  shows "keeps s s1" and "proxiesCache s1 q = Some f"
  using assms by (auto intro: keeps_cache_factory createProxyFactory_keeps)

lemma getProxy_keeps:
  assumes "getProxy env n q c s = (r, s')"
  shows "keeps s s'"
  using assms
proof (cases rule: getProxy_cases)
  case (create_err e)
  then show ?thesis by (simp add: createProxyFactory_keeps)
next
  case (apply_err f s1 e)
  have "keeps s1 s'" unfolding apply_err(4) by (rule keeps_log) simp
  with getProxy_before_apply(1) [OF apply_err(1)] show ?thesis by (rule keeps_trans)
next
  case (apply_ok f s1 body)
  have "keeps s1 s'" unfolding apply_ok(4) by (simp add: keeps_def)
  with getProxy_before_apply(1) [OF apply_ok(1)] show ?thesis by (rule keeps_trans)
qed

lemma step_keeps: "keeps s (step env c s)"
proof (cases c)
  case (GetDefinitions q)
  then show ?thesis by (simp add: getDefinitions_keeps [OF surjective_pairing])
next
  case (GetProxy n q x)
  then show ?thesis by (simp add: getProxy_keeps [OF surjective_pairing])
next
  case (CreateProxyFactory n b q)
  then show ?thesis by (simp add: createProxyFactory_keeps [OF surjective_pairing])
next
  case (FileChange q t)
  then show ?thesis by (simp add: keeps_def)
qed

lemma run_keeps: "keeps s (run env cs s)"
proof (induction cs arbitrary: s)
  case Nil
  show ?case by simp
next
  case (Cons c cs)
  have "keeps s (step env c s)" by (rule step_keeps)
  moreover have "keeps (step env c s) (run env cs (step env c s))" by (rule Cons.IH)
  ultimately show ?case by (simp add: keeps_trans)
qed

lemma getDefinitions_miss_ok:
  assumes "definitionsCache s q = None" and "getDefinitions env q s = (Inr d, s')"
  shows "\<exists>rp src. resolveFilename env (fs s) q = Inr rp \<and> readFileSync (fs s) rp = Inr src
           \<and> parseServiceDefinition env rp src = Inr (def_body d) \<and> def_id d = next_id s
           \<and> s' = s\<lparr>definitionsCache := (definitionsCache s)(q \<mapsto> d),
                     next_id := Suc (next_id s),
                     trace := trace s @ [EvResolve q, EvRead rp, EvParse q rp src]\<rparr>"
  using assms(2)
proof (cases rule: getDefinitions_cases)
  case (hit d')
  with assms(1) show ?thesis by simp
next
  case (miss_ok d' s1)
  from loadDefinitions_ok [OF miss_ok(2)] miss_ok(3,4) show ?thesis by auto
next
  case (miss_err e)
  then show ?thesis by simp
qed

lemma getDefinitions_ok_cached:
  assumes "getDefinitions env q s = (Inr d, s')"
  shows "definitionsCache s' q = Some d"
  using assms by (cases rule: getDefinitions_cases) simp_all

lemma getDefinitions_frame:
  assumes "getDefinitions env q s = (r, s')"
  shows "proxiesCache s' = proxiesCache s" and "fs s' = fs s"
    and "dom (definitionsCache s') \<subseteq> insert q (dom (definitionsCache s))"
  using assms
  by (cases rule: getDefinitions_cases; auto simp: loadDefinitions_frame)+

lemma getDefinitions_err_frame:
  assumes "getDefinitions env q s = (Inl e, s')"
  shows "definitionsCache s' = definitionsCache s"
  using assms
  by (cases rule: getDefinitions_cases) (simp_all add: loadDefinitions_frame)

lemma createProxyFactory_ok:
  assumes "createProxyFactory env n b q s = (Inr f, s')"
  shows "\<exists>defs s1 code. getDefinitions env q s = (Inr defs, s1)
           \<and> generateProxy env n b defs = Inr code
           \<and> compile env \<lparr>m_filename = uriJoin env (dirname env) (parsePathName env q @ ''Proxy.js''),
                           m_id = uriJoin env (dirname env) (parsePathName env q @ ''Proxy.js''),
                           m_paths = [], m_exports = ()\<rparr>
                code (parsePathName env q @ ''Proxy.js'') = Inr (fac_exports f)
           \<and> ex_inject (fac_exports f) [RxObservable, TrackOperationTiming] = None
           \<and> fac_id f = next_id s1
           \<and> s' = s1\<lparr>next_id := Suc (next_id s1),
                      trace := trace s1 @
                        [EvGenerate n b (def_id defs),
                         EvCompile \<lparr>m_filename = uriJoin env (dirname env) (parsePathName env q @ ''Proxy.js''),
                                    m_id = uriJoin env (dirname env) (parsePathName env q @ ''Proxy.js''),
                                    m_paths = [], m_exports = ()\<rparr>
                           code (parsePathName env q @ ''Proxy.js''),
                         EvInject (fac_id f) [RxObservable, TrackOperationTiming]]\<rparr>"
  using assms
proof (cases rule: createProxyFactory_cases)
  case (ok defs s1 code m s3)
  from ok(3) show ?thesis
  proof (cases rule: loadCodeAsModule_cases)
    case (load_ok ex m0)
    with ok show ?thesis by (simp add: log_def)
  qed simp
qed simp_all

lemma createProxyFactory_frame:
  assumes "createProxyFactory env n b q s = (r, s')"
  shows "proxiesCache s' = proxiesCache s" and "fs s' = fs s"
    and "dom (definitionsCache s') \<subseteq> insert q (dom (definitionsCache s))"
proof -
  have load: "proxiesCache t' = proxiesCache t \<and> fs t' = fs t \<and> definitionsCache t' = definitionsCache t"
    if "loadCodeAsModule env code fn t = (r', t')" for code fn t r' t'
    using that by (cases rule: loadCodeAsModule_cases) simp_all
  show "proxiesCache s' = proxiesCache s" and "fs s' = fs s"
    and "dom (definitionsCache s') \<subseteq> insert q (dom (definitionsCache s))"
    using assms
    by (cases rule: createProxyFactory_cases;
        insert getDefinitions_frame [of env q s]; fastforce dest!: load)+
qed

lemma getProxy_hit:
  assumes "proxiesCache s q = Some f"
  shows "getProxy env n q c s =
           (case ex_call (fac_exports f) [Context c] of
              Inl e \<Rightarrow> (Inl e, log (EvApply (fac_id f) [Context c]) s)
            | Inr body \<Rightarrow>
                (Inr \<lparr>proxy_id = next_id s, proxy_body = body\<rparr>,
                 (log (EvApply (fac_id f) [Context c]) s)\<lparr>next_id := Suc (next_id s)\<rparr>))"
  using assms by (simp add: getProxy_def Let_def split: sum.splits)

lemma getProxy_hit_trace:
  assumes "proxiesCache s q = Some f"
  shows "trace (snd (getProxy env n q c s)) = trace s @ [EvApply (fac_id f) [Context c]]"
  by (simp add: getProxy_hit [OF assms] split: sum.splits)

lemma getProxy_miss:
  assumes "proxiesCache s q = None"
  shows "getProxy env n q c s =
           (case createProxyFactory env n False q s of
              (Inl e, s1) \<Rightarrow> (Inl e, s1)
            | (Inr f, s1) \<Rightarrow>
                getProxy env n q c (s1\<lparr>proxiesCache := (proxiesCache s1)(q \<mapsto> f)\<rparr>))"
  using assms by (simp add: getProxy_def Let_def split: prod.splits sum.splits)

lemma getProxy_ok:
  assumes "getProxy env n q c s = (Inr p, s')"
  shows "\<exists>f. proxiesCache s' q = Some f \<and> ex_call (fac_exports f) [Context c] = Inr (proxy_body p)
           \<and> last (trace s') = EvApply (fac_id f) [Context c]
           \<and> proxy_id p < next_id s' \<and> next_id s \<le> proxy_id p
           \<and> (proxiesCache s q = None \<longrightarrow> (\<exists>s1. createProxyFactory env n False q s = (Inr f, s1)))
           \<and> (proxiesCache s q \<noteq> None \<longrightarrow> proxiesCache s q = Some f)"
  using assms
proof (cases rule: getProxy_cases)
  case (apply_ok f s1 body)
  from getProxy_before_apply [OF apply_ok(1)] have "keeps s s1" "proxiesCache s1 q = Some f" .
  with apply_ok show ?thesis
    by (auto dest: keeps_le)
qed simp_all

lemma createProxyFactory_failure:
  assumes fail: "createProxyFactory env n b P s = (Inl e, s')"
  shows "proxiesCache s' = proxiesCache s
         \<and> (\<not> b \<and> proxiesCache s P = None \<longrightarrow> getProxy env n P c s = (Inl e, s'))
         \<and> (case getDefinitions env P s of
              (Inl e', s1) \<Rightarrow> e' = e \<and> s' = s1 \<and> definitionsCache s' = definitionsCache s
            | (Inr defs, s1) \<Rightarrow>
                definitionsCache s' = definitionsCache s1 \<and> definitionsCache s' P = Some defs)"
proof -
  have frame: "proxiesCache s' = proxiesCache s"
    by (rule createProxyFactory_frame(1) [OF fail])
  have thrown: "getProxy env n P c s = (Inl e, s')" if "\<not> b" and miss: "proxiesCache s P = None"
    using fail that by (simp add: getProxy_miss [OF miss])
  have load: "definitionsCache t' = definitionsCache t"
    if "loadCodeAsModule env code fn t = (r', t')" for code fn t r' t'
    using that by (cases rule: loadCodeAsModule_cases) simp_all
  have cached: "case getDefinitions env P s of
              (Inl e', s1) \<Rightarrow> e' = e \<and> s' = s1 \<and> definitionsCache s' = definitionsCache s
            | (Inr defs, s1) \<Rightarrow>
                definitionsCache s' = definitionsCache s1 \<and> definitionsCache s' P = Some defs"
    using fail
  proof (cases rule: createProxyFactory_cases)
    case (defs_err e0)
    then show ?thesis by (simp add: getDefinitions_err_frame)
  next
    case (gen_err defs s1 e0)
    then show ?thesis by (simp add: getDefinitions_ok_cached)
  next
    case (load_err defs s1 code e0)
    from load [OF load_err(3)] load_err(1) show ?thesis
      by (simp add: getDefinitions_ok_cached)
  next
    case (inject_err defs s1 code m s3 e0)
    from load [OF inject_err(3)] inject_err(1,6) show ?thesis
      by (simp add: getDefinitions_ok_cached)
  qed simp
  from frame thrown cached show ?thesis by blast
qed

text \<open>Entries under a key other than the path of a call do not enter the call.\<close>

lemma poke_simps [simp]:
  "definitionsCache (poke k v w s) = (definitionsCache s)(k := v)"
  "proxiesCache (poke k v w s) = (proxiesCache s)(k := w)"
  "fs (poke k v w s) = fs s"
  "next_id (poke k v w s) = next_id s"
  "trace (poke k v w s) = trace s"
  by (simp_all add: poke_def)

lemma poke_log: "log e (poke k v w s) = poke k v w (log e s)"
  by (simp add: poke_def log_def)

lemma poke_next_id: "(poke k v w s)\<lparr>next_id := i\<rparr> = poke k v w (s\<lparr>next_id := i\<rparr>)"
  by (simp add: poke_def)

lemma poke_store_defs:
  "k \<noteq> p \<Longrightarrow>
   (poke k v w s)\<lparr>definitionsCache := (definitionsCache s)(k := v, p \<mapsto> d)\<rparr>
     = poke k v w (s\<lparr>definitionsCache := (definitionsCache s)(p \<mapsto> d)\<rparr>)"
  by (simp add: poke_def fun_upd_twist)

lemma poke_store_factory:
  "k \<noteq> p \<Longrightarrow>
   (poke k v w s)\<lparr>proxiesCache := (proxiesCache s)(k := w, p \<mapsto> f)\<rparr>
     = poke k v w (s\<lparr>proxiesCache := (proxiesCache s)(p \<mapsto> f)\<rparr>)"
  by (simp add: poke_def fun_upd_twist)

lemma loadDefinitions_poke:
  "loadDefinitions env p (poke k v w s)
     = (fst (loadDefinitions env p s), poke k v w (snd (loadDefinitions env p s)))"
  by (simp add: loadDefinitions_def resolvePath_def Let_def poke_log poke_next_id
           split: sum.splits)

lemma getDefinitions_poke:
  assumes "k \<noteq> p"
  shows "getDefinitions env p (poke k v w s)
           = (fst (getDefinitions env p s), poke k v w (snd (getDefinitions env p s)))"
proof (cases "loadDefinitions env p s")
  case (Pair r t)
  with assms show ?thesis
    by (cases r)
       (simp_all add: getDefinitions_def loadDefinitions_poke poke_store_defs
                 split: option.splits)
qed

lemma loadCodeAsModule_poke:
  "loadCodeAsModule env code filename (poke k v w s)
     = (fst (loadCodeAsModule env code filename s),
        poke k v w (snd (loadCodeAsModule env code filename s)))"
  by (simp add: loadCodeAsModule_def Let_def poke_log poke_next_id split: sum.splits)

lemma createProxyFactory_poke:
  assumes "k \<noteq> p"
  shows "createProxyFactory env n b p (poke k v w s)
           = (fst (createProxyFactory env n b p s),
              poke k v w (snd (createProxyFactory env n b p s)))"
proof (cases "getDefinitions env p s")
  case (Pair r t)
  show ?thesis
  proof (cases r)
    case (Inl e)
    with Pair assms show ?thesis
      by (simp add: createProxyFactory_def getDefinitions_poke)
  next
    case (Inr defs)
    show ?thesis
    proof (cases "generateProxy env n b defs")
      case (Inl e)
      with Pair Inr assms show ?thesis
        by (simp add: createProxyFactory_def getDefinitions_poke Let_def poke_log)
    next
      case gen: (Inr code)
      obtain r2 t2 where load: "loadCodeAsModule env code (parsePathName env p @ ''Proxy.js'')
                                  (log (EvGenerate n b (def_id defs)) t) = (r2, t2)"
        by (cases "loadCodeAsModule env code (parsePathName env p @ ''Proxy.js'')
                     (log (EvGenerate n b (def_id defs)) t)")
      with Pair Inr gen assms show ?thesis
        by (cases r2)
           (simp_all add: createProxyFactory_def getDefinitions_poke Let_def poke_log
                          loadCodeAsModule_poke split: option.splits)
    qed
  qed
qed

lemma getProxy_poke:
  assumes "k \<noteq> p"
  shows "getProxy env n p c (poke k v w s)
           = (fst (getProxy env n p c s), poke k v w (snd (getProxy env n p c s)))"
proof -
  have hit: "getProxy env n p c (poke k v w t)
               = (fst (getProxy env n p c t), poke k v w (snd (getProxy env n p c t)))"
    if "proxiesCache t p = Some f" for t f
  proof -
    from that assms have "proxiesCache (poke k v w t) p = Some f" by simp
    from getProxy_hit [OF this] getProxy_hit [OF that] show ?thesis
      by (simp add: poke_log poke_next_id split: sum.splits)
  qed
  show ?thesis
  proof (cases "proxiesCache s p")
    case (Some f)
    then show ?thesis by (rule hit)
  next
    case None
    with assms have miss: "proxiesCache (poke k v w s) p = None" by simp
    obtain r t where create: "createProxyFactory env n False p s = (r, t)"
      by (cases "createProxyFactory env n False p s")
    show ?thesis
    proof (cases r)
      case (Inl e)
      with create assms show ?thesis
        by (simp add: getProxy_miss [OF miss] getProxy_miss [OF None] createProxyFactory_poke)
    next
      case (Inr f)
      let ?t = "t\<lparr>proxiesCache := (proxiesCache t)(p \<mapsto> f)\<rparr>"
      have "proxiesCache ?t p = Some f" by simp
      from hit [OF this] create Inr assms show ?thesis
        by (simp add: getProxy_miss [OF miss] getProxy_miss [OF None] createProxyFactory_poke
                      poke_store_factory)
    qed
  qed
qed

lemma getDefinitions_miss_resolves:
  assumes "definitionsCache s p = None"
  shows "\<exists>evs. trace (snd (getDefinitions env p s)) = trace s @ EvResolve p # evs"
  using assms
  by (auto simp: getDefinitions_def loadDefinitions_def resolvePath_def Let_def
           split: sum.splits prod.splits option.splits)

text \<open>
  What main.js does for the isolation of the loaded code: the module it hands to \<open>_compile\<close>
  has no lookup paths, and its file name and id are the synthetic name joined to
  \<open>__dirname\<close>.
\<close>

lemma loadCodeAsModule_lookup_paths_empty:
  assumes "loadCodeAsModule env code filename s = (r, s')"
  shows "\<exists>m. trace s' = trace s @ [EvCompile m code filename]
           \<and> m_paths m = []
           \<and> m_filename m = uriJoin env (dirname env) filename
           \<and> m_id m = uriJoin env (dirname env) filename
           \<and> (case r of
                 Inl e \<Rightarrow> compile env m code filename = Inl e
               | Inr loaded \<Rightarrow>
                   m_paths loaded = []
                   \<and> compile env m code filename = Inr (fac_exports (m_exports loaded)))"
  using assms
  by (cases rule: loadCodeAsModule_cases) auto

text \<open>Unfolding everything, for running the model on the sample collaborators.\<close>

lemmas sample_defs = getDefinitions_def loadDefinitions_def resolvePath_def log_def readFileSync_def
  createProxyFactory_def loadCodeAsModule_def getProxy_def
  sample_env_def init_def sample_files_def Let_def

lemma generate_flags_simps [simp]:
  "generate_flags [] = []"
  "generate_flags (xs @ ys) = generate_flags xs @ generate_flags ys"
  "generate_flags (e # es) = (case e of EvGenerate _ b _ \<Rightarrow> [b] | _ \<Rightarrow> []) @ generate_flags es"
  by (simp_all add: generate_flags_def)

lemma compiled_filenames_simps [simp]:
  "compiled_filenames [] = []"
  "compiled_filenames (xs @ ys) = compiled_filenames xs @ compiled_filenames ys"
  "compiled_filenames (e # es) = (case e of EvCompile _ _ f \<Rightarrow> [f] | _ \<Rightarrow> []) @ compiled_filenames es"
  by (simp_all add: compiled_filenames_def)

lemma application_args_simps [simp]:
  "application_args [] = []"
  "application_args (xs @ ys) = application_args xs @ application_args ys"
  "application_args (e # es) = (case e of EvApply _ args \<Rightarrow> [args] | _ \<Rightarrow> []) @ application_args es"
  by (simp_all add: application_args_def)

lemma inject_args_simps [simp]:
  "inject_args [] = []"
  "inject_args (xs @ ys) = inject_args xs @ inject_args ys"
  "inject_args (e # es) = (case e of EvInject _ args \<Rightarrow> [args] | _ \<Rightarrow> []) @ inject_args es"
  by (simp_all add: inject_args_def)

lemma file_parse_count_simps [simp]:
  "file_parse_count p [] = 0"
  "file_parse_count p (xs @ ys) = file_parse_count p xs + file_parse_count p ys"
  "file_parse_count p (e # es) =
     (case e of EvParse _ r _ \<Rightarrow> (if r = p then 1 else 0) | _ \<Rightarrow> 0) + file_parse_count p es"
  by (simp_all add: file_parse_count_def split: event.splits)

lemma loadDefinitions_events:
  assumes "loadDefinitions env q s = (r, s')"
  shows "\<exists>evs. trace s' = trace s @ evs \<and> registry_events evs"
  using assms
  by (auto simp: loadDefinitions_def resolvePath_def Let_def registry_events_def
           split: sum.splits prod.splits)

lemma getDefinitions_events:
  assumes "getDefinitions env q s = (r, s')"
  shows "\<exists>evs. trace s' = trace s @ evs \<and> registry_events evs"
  using assms
proof (cases rule: getDefinitions_cases)
  case (hit d)
  then show ?thesis by (simp add: registry_events_def)
next
  case (miss_ok d s1)
  with loadDefinitions_events [OF miss_ok(2)] show ?thesis by simp
next
  case (miss_err e)
  with loadDefinitions_events [OF miss_err(2)] show ?thesis by simp
qed

lemma createProxyFactory_events:
  assumes "createProxyFactory env n b q s = (r, s')"
  shows "\<exists>evs. trace s' = trace s @ evs
           \<and> set (generate_flags evs) \<subseteq> {b}
           \<and> set (compiled_filenames evs) \<subseteq> {parsePathName env q @ ''Proxy.js''}
           \<and> application_args evs = []
           \<and> set (inject_args evs) \<subseteq> {[RxObservable, TrackOperationTiming]}"
  using assms
proof (cases rule: createProxyFactory_cases)
  case (defs_err e)
  from getDefinitions_events [OF defs_err(1)] show ?thesis
    by (auto simp: registry_events_def)
next
  case (gen_err defs s1 e)
  from getDefinitions_events [OF gen_err(1)] gen_err(4) show ?thesis
    by (auto simp: registry_events_def)
next
  case (load_err defs s1 code e)
  from load_err(3) have "trace s' = trace s1 @
     [EvGenerate n b (def_id defs),
      EvCompile \<lparr>m_filename = uriJoin env (dirname env) (parsePathName env q @ ''Proxy.js''),
                 m_id = uriJoin env (dirname env) (parsePathName env q @ ''Proxy.js''),
                 m_paths = [], m_exports = ()\<rparr> code (parsePathName env q @ ''Proxy.js'')]"
    by (cases rule: loadCodeAsModule_cases) simp_all
  with getDefinitions_events [OF load_err(1)] show ?thesis
    by (auto simp: registry_events_def)
next
  case (inject_err defs s1 code m s3 e)
  from inject_err(3) have "trace s3 = trace s1 @
     [EvGenerate n b (def_id defs),
      EvCompile \<lparr>m_filename = uriJoin env (dirname env) (parsePathName env q @ ''Proxy.js''),
                 m_id = uriJoin env (dirname env) (parsePathName env q @ ''Proxy.js''),
                 m_paths = [], m_exports = ()\<rparr> code (parsePathName env q @ ''Proxy.js'')]"
    by (cases rule: loadCodeAsModule_cases) simp_all
  with getDefinitions_events [OF inject_err(1)] inject_err(6) show ?thesis
    by (auto simp: registry_events_def)
next
  case (ok defs s1 code m s3)
  from ok(3) have "trace s3 = trace s1 @
     [EvGenerate n b (def_id defs),
      EvCompile \<lparr>m_filename = uriJoin env (dirname env) (parsePathName env q @ ''Proxy.js''),
                 m_id = uriJoin env (dirname env) (parsePathName env q @ ''Proxy.js''),
                 m_paths = [], m_exports = ()\<rparr> code (parsePathName env q @ ''Proxy.js'')]"
    by (cases rule: loadCodeAsModule_cases) simp_all
  with getDefinitions_events [OF ok(1)] ok(6) show ?thesis
    by (auto simp: registry_events_def)
qed

lemma getProxy_events:
  assumes "getProxy env n q c s = (r, s')"
  shows "\<exists>evs. trace s' = trace s @ evs
           \<and> set (generate_flags evs) \<subseteq> {False}
           \<and> set (compiled_filenames evs) \<subseteq> {parsePathName env q @ ''Proxy.js''}
           \<and> set (application_args evs) \<subseteq> {[Context c]}
           \<and> set (inject_args evs) \<subseteq> {[RxObservable, TrackOperationTiming]}"
proof -
  have before: "\<exists>evs. trace s1 = trace s @ evs
           \<and> set (generate_flags evs) \<subseteq> {False}
           \<and> set (compiled_filenames evs) \<subseteq> {parsePathName env q @ ''Proxy.js''}
           \<and> application_args evs = []
           \<and> set (inject_args evs) \<subseteq> {[RxObservable, TrackOperationTiming]}"
    if "proxiesCache s q = Some f \<and> s1 = s
       \<or> proxiesCache s q = None
          \<and> (\<exists>s0. createProxyFactory env n False q s = (Inr f, s0)
                \<and> s1 = s0\<lparr>proxiesCache := (proxiesCache s0)(q \<mapsto> f)\<rparr>)" for f s1
    using that
  proof (elim disjE conjE exE)
    assume "s1 = s"
    then show ?thesis by simp
  next
    fix s0
    assume "createProxyFactory env n False q s = (Inr f, s0)"
      and "s1 = s0\<lparr>proxiesCache := (proxiesCache s0)(q \<mapsto> f)\<rparr>"
    with createProxyFactory_events [of env n False q s "Inr f" s0] show ?thesis by simp
  qed
  from assms show ?thesis
  proof (cases rule: getProxy_cases)
    case (create_err e)
    from createProxyFactory_events [OF create_err(2)] show ?thesis by auto
  next
    case (apply_err f s1 e)
    from before [OF apply_err(1)] apply_err(4) show ?thesis by auto
  next
    case (apply_ok f s1 body)
    from before [OF apply_ok(1)] apply_ok(4) show ?thesis by auto
  qed
qed

lemma getProxy_frame:
  assumes "getProxy env n q c s = (r, s')"
  shows "dom (definitionsCache s') \<subseteq> insert q (dom (definitionsCache s))
         \<and> dom (proxiesCache s') \<subseteq> insert q (dom (proxiesCache s)) \<and> fs s' = fs s"
proof -
  have before: "dom (definitionsCache s1) \<subseteq> insert q (dom (definitionsCache s))
                \<and> dom (proxiesCache s1) \<subseteq> insert q (dom (proxiesCache s)) \<and> fs s1 = fs s"
    if "proxiesCache s q = Some f \<and> s1 = s
       \<or> proxiesCache s q = None
          \<and> (\<exists>s0. createProxyFactory env n False q s = (Inr f, s0)
                \<and> s1 = s0\<lparr>proxiesCache := (proxiesCache s0)(q \<mapsto> f)\<rparr>)" for f s1
    using that
  proof (elim disjE conjE exE)
    assume "s1 = s"
    then show ?thesis by auto
  next
    fix s0
    assume create: "createProxyFactory env n False q s = (Inr f, s0)"
      and s1: "s1 = s0\<lparr>proxiesCache := (proxiesCache s0)(q \<mapsto> f)\<rparr>"
    from createProxyFactory_frame [OF create] s1 show ?thesis by simp
  qed
  from assms show ?thesis
  proof (cases rule: getProxy_cases)
    case (create_err e)
    from createProxyFactory_frame [OF create_err(2)] show ?thesis by auto
  next
    case (apply_err f s1 e)
    from before [OF apply_err(1)] apply_err(4) show ?thesis by simp
  next
    case (apply_ok f s1 body)
    from before [OF apply_ok(1)] apply_ok(4) show ?thesis by simp
  qed
qed

lemma getProxy_full_miss:
  assumes "definitionsCache s q = None" and "proxiesCache s q = None"
    and "getProxy env n q c s = (Inr p, s')"
  shows "\<exists>rp src d f code.
           resolveFilename env (fs s) q = Inr rp \<and> readFileSync (fs s) rp = Inr src
           \<and> def_id d = next_id s \<and> fac_id f = Suc (next_id s)
           \<and> definitionsCache s' = (definitionsCache s)(q \<mapsto> d)
           \<and> proxiesCache s' = (proxiesCache s)(q \<mapsto> f)
           \<and> next_id s' = Suc (Suc (Suc (next_id s)))
           \<and> fs s' = fs s
           \<and> trace s' = trace s @
               [EvResolve q, EvRead rp, EvParse q rp src,
                EvGenerate n False (def_id d),
                EvCompile \<lparr>m_filename = uriJoin env (dirname env) (parsePathName env q @ ''Proxy.js''),
                           m_id = uriJoin env (dirname env) (parsePathName env q @ ''Proxy.js''),
                           m_paths = [], m_exports = ()\<rparr>
                  code (parsePathName env q @ ''Proxy.js''),
                EvInject (fac_id f) [RxObservable, TrackOperationTiming],
                EvApply (fac_id f) [Context c]]"
  using assms(3)
proof (cases rule: getProxy_cases)
  case (apply_ok f s1 body)
  with assms(2) obtain s0 where
    create: "createProxyFactory env n False q s = (Inr f, s0)"
    and s1: "s1 = s0\<lparr>proxiesCache := (proxiesCache s0)(q \<mapsto> f)\<rparr>"
    by auto
  from createProxyFactory_ok [OF create] obtain defs sd code where
    gd: "getDefinitions env q s = (Inr defs, sd)"
    and fid: "fac_id f = next_id sd"
    and s0: "s0 = sd\<lparr>next_id := Suc (next_id sd),
                      trace := trace sd @
                        [EvGenerate n False (def_id defs),
                         EvCompile \<lparr>m_filename = uriJoin env (dirname env) (parsePathName env q @ ''Proxy.js''),
                                    m_id = uriJoin env (dirname env) (parsePathName env q @ ''Proxy.js''),
                                    m_paths = [], m_exports = ()\<rparr>
                           code (parsePathName env q @ ''Proxy.js''),
                         EvInject (fac_id f) [RxObservable, TrackOperationTiming]]\<rparr>"
    by blast
  from getDefinitions_miss_ok [OF assms(1) gd] obtain rp src where
    res: "resolveFilename env (fs s) q = Inr rp" "readFileSync (fs s) rp = Inr src"
    and did: "def_id defs = next_id s"
    and sd: "sd = s\<lparr>definitionsCache := (definitionsCache s)(q \<mapsto> defs),
                     next_id := Suc (next_id s),
                     trace := trace s @ [EvResolve q, EvRead rp, EvParse q rp src]\<rparr>"
    by blast
  from res did fid show ?thesis
    by (intro exI [of _ rp] exI [of _ src] exI [of _ defs] exI [of _ f] exI [of _ code])
       (simp add: apply_ok(4) s1 s0 sd)
qed (simp_all)

lemma createProxyFactory_name_and_keys:
  assumes create: "createProxyFactory env n b P s = (Inr f, s')"
  shows "(\<exists>evs. trace s' = trace s @ evs
            \<and> compiled_filenames evs = [parsePathName env P @ ''Proxy.js''])
         \<and> dom (definitionsCache s') = insert P (dom (definitionsCache s))
         \<and> proxiesCache s' = proxiesCache s
         \<and> dom (definitionsCache (snd (getProxy env n' P c s)))
             \<subseteq> insert P (dom (definitionsCache s))
         \<and> dom (proxiesCache (snd (getProxy env n' P c s)))
             \<subseteq> insert P (dom (proxiesCache s))"
proof -
  from createProxyFactory_ok [OF create] obtain defs sd code where
    gd: "getDefinitions env P s = (Inr defs, sd)"
    and tr: "trace s' = trace sd @
                 [EvGenerate n b (def_id defs),
                  EvCompile \<lparr>m_filename = uriJoin env (dirname env) (parsePathName env P @ ''Proxy.js''),
                             m_id = uriJoin env (dirname env) (parsePathName env P @ ''Proxy.js''),
                             m_paths = [], m_exports = ()\<rparr>
                    code (parsePathName env P @ ''Proxy.js''),
                  EvInject (fac_id f) [RxObservable, TrackOperationTiming]]"
    and dc: "definitionsCache s' = definitionsCache sd"
    by auto
  from getDefinitions_events [OF gd] obtain evs0 where
    sd: "trace sd = trace s @ evs0" and reg: "registry_events evs0"
    by blast
  from tr sd reg have name: "\<exists>evs. trace s' = trace s @ evs
            \<and> compiled_filenames evs = [parsePathName env P @ ''Proxy.js'']"
    by (simp add: registry_events_def)
  from getDefinitions_keeps [OF gd] have "dom (definitionsCache s) \<subseteq> dom (definitionsCache sd)"
    by (simp add: keeps_def map_le_implies_dom_le)
  with getDefinitions_frame(3) [OF gd] getDefinitions_ok_cached [OF gd] dc
  have keys: "dom (definitionsCache s') = insert P (dom (definitionsCache s))"
    by auto
  from name keys createProxyFactory_frame(1) [OF create]
    getProxy_frame [OF surjective_pairing, of env n' P c s]
  show ?thesis by simp
qed

lemmas resolver_defs = require_resolve_def is_path_request_def load_path_def load_as_file_def
  load_as_directory_def sample_runtime_def sample_tree_def

subsection \<open>Claims\<close>

text \<open>
  C1. Once a call \<open>getDefinitions(P)\<close> has returned a \<open>Definitions\<close> object, every later
  call for \<open>P\<close> returns that very object (same identity) and leaves the state untouched,
  whatever calls and file changes happen in between; the parser has then run for \<open>P\<close>
  exactly once more than before the first call when that call missed the cache, and not at
  all when it hit.
\<close>

theorem getDefinitions_identical_and_parsed_once:
  assumes first: "getDefinitions env P s0 = (Inr d, s1)"
    and later: "getDefinitions env P (run env calls s1) = (r, s3)"
  shows "r = Inr d \<and> s3 = run env calls s1
         \<and> parse_count P (trace s3)
             = parse_count P (trace s0) + (if definitionsCache s0 P = None then 1 else 0)"
proof -
  have cached: "definitionsCache s1 P = Some d"
    and counted: "parse_count P (trace s1)
                   = parse_count P (trace s0) + (if definitionsCache s0 P = None then 1 else 0)"
    using first
    by (cases rule: getDefinitions_cases; simp add: loadDefinitions_parse_count_self loadDefinitions_frame)+
  have k: "keeps s1 (run env calls s1)" by (rule run_keeps)
  from keeps_defs [OF k cached] have "definitionsCache (run env calls s1) P = Some d" .
  from getDefinitions_hit [OF this] later have "r = Inr d" "s3 = run env calls s1"
    by simp_all
  moreover from keeps_parse_count [OF k cached] counted
  have "parse_count P (trace (run env calls s1))
          = parse_count P (trace s0) + (if definitionsCache s0 P = None then 1 else 0)"
    by simp
  ultimately show ?thesis by simp
qed

theorem getDefinitions_identical_and_parsed_once_witness:
  "fst (getDefinitions sample_env ''Foo.def'' (init sample_files))
     = Inr \<lparr>def_id = 0, def_body = ''f()''\<rparr>
   \<and> fst (getDefinitions sample_env ''Foo.def''
           (run sample_env [FileChange ''Foo.def'' (Some ''g()''), GetProxy ''Foo'' ''Foo.def'' 1]
              (snd (getDefinitions sample_env ''Foo.def'' (init sample_files)))))
     = Inr \<lparr>def_id = 0, def_body = ''f()''\<rparr>
   \<and> parse_count ''Foo.def''
        (trace (snd (getDefinitions sample_env ''Foo.def''
           (run sample_env [FileChange ''Foo.def'' (Some ''g()''), GetProxy ''Foo'' ''Foo.def'' 1]
              (snd (getDefinitions sample_env ''Foo.def'' (init sample_files))))))) = 1"
proof -
  have first: "fst (getDefinitions sample_env ''Foo.def'' (init sample_files))
                 = Inr \<lparr>def_id = 0, def_body = ''f()''\<rparr>"
    by (simp add: sample_defs)
  have miss: "definitionsCache (init sample_files :: (string, nat, string \<times> nat) state) ''Foo.def'' = None"
    and none: "parse_count ''Foo.def'' (trace (init sample_files :: (string, nat, string \<times> nat) state)) = 0"
    by (simp_all add: init_def)
  from first have "getDefinitions sample_env ''Foo.def'' (init sample_files)
      = (Inr \<lparr>def_id = 0, def_body = ''f()''\<rparr>,
         snd (getDefinitions sample_env ''Foo.def'' (init sample_files)))"
    by (simp add: prod_eq_iff)
  from getDefinitions_identical_and_parsed_once
         [where calls = "[FileChange ''Foo.def'' (Some ''g()''), GetProxy ''Foo'' ''Foo.def'' 1]",
          OF this surjective_pairing] first miss none
  show ?thesis by (auto simp del: run.simps)
qed

text \<open>
  C2. Two calls \<open>getProxy(name, P, ctx1)\<close> and \<open>getProxy(name, P, ctx2)\<close> that return, with
  any calls and file changes in between, apply one and the same cached factory (the entry of
  \<open>proxiesCache\<close> for \<open>P\<close>, the same before and after); each call ends with an application
  of its own to the context it was given (the later call does nothing else), the object it
  returns is what the factory yields for that context, and the two objects are distinct.
\<close>

theorem getProxy_applies_one_factory_anew:
  assumes first: "getProxy env n P c1 s0 = (Inr p1, s1)"
    and later: "getProxy env n P c2 (run env calls s1) = (Inr p2, s3)"
  shows "\<exists>f. proxiesCache s1 P = Some f \<and> proxiesCache s3 P = Some f
           \<and> last (trace s1) = EvApply (fac_id f) [Context c1]
           \<and> trace s3 = trace (run env calls s1) @ [EvApply (fac_id f) [Context c2]]
           \<and> ex_call (fac_exports f) [Context c1] = Inr (proxy_body p1)
           \<and> ex_call (fac_exports f) [Context c2] = Inr (proxy_body p2)
           \<and> proxy_id p1 \<noteq> proxy_id p2"
proof -
  from getProxy_ok [OF first] obtain f where
    f1: "proxiesCache s1 P = Some f"
    and app1: "ex_call (fac_exports f) [Context c1] = Inr (proxy_body p1)"
    and last1: "last (trace s1) = EvApply (fac_id f) [Context c1]"
    and id1: "proxy_id p1 < next_id s1"
    by blast
  have k: "keeps s1 (run env calls s1)" by (rule run_keeps)
  from keeps_proxies [OF k f1] have f2: "proxiesCache (run env calls s1) P = Some f" .
  from getProxy_ok [OF later] f2 have
    f3: "proxiesCache s3 P = Some f"
    and app2: "ex_call (fac_exports f) [Context c2] = Inr (proxy_body p2)"
    and id2: "next_id (run env calls s1) \<le> proxy_id p2"
    by auto
  from getProxy_hit_trace [OF f2, of env n c2] later
  have tr: "trace s3 = trace (run env calls s1) @ [EvApply (fac_id f) [Context c2]]"
    by simp
  from id1 id2 keeps_le [OF k] have "proxy_id p1 \<noteq> proxy_id p2" by simp
  with f1 f3 last1 tr app1 app2 show ?thesis by blast
qed

theorem getProxy_applies_one_factory_anew_witness:
  "fst (getProxy sample_env ''Foo'' ''Foo.def'' 1 (init sample_files))
     = Inr \<lparr>proxy_id = 2, proxy_body = (''Foo:f()'', 1)\<rparr>
   \<and> fst (getProxy sample_env ''Foo'' ''Foo.def'' 2
           (run sample_env [GetDefinitions ''Odd.def'']
              (snd (getProxy sample_env ''Foo'' ''Foo.def'' 1 (init sample_files)))))
     = Inr \<lparr>proxy_id = 4, proxy_body = (''Foo:f()'', 2)\<rparr>
   \<and> map_option fac_id
        (proxiesCache (snd (getProxy sample_env ''Foo'' ''Foo.def'' 1 (init sample_files))) ''Foo.def'')
     = Some 1
   \<and> trace (snd (getProxy sample_env ''Foo'' ''Foo.def'' 2
           (run sample_env [GetDefinitions ''Odd.def'']
              (snd (getProxy sample_env ''Foo'' ''Foo.def'' 1 (init sample_files))))))
     = trace (run sample_env [GetDefinitions ''Odd.def'']
              (snd (getProxy sample_env ''Foo'' ''Foo.def'' 1 (init sample_files))))
       @ [EvApply 1 [Context 2]]"
proof -
  have first: "fst (getProxy sample_env ''Foo'' ''Foo.def'' 1 (init sample_files))
                 = Inr \<lparr>proxy_id = 2, proxy_body = (''Foo:f()'', 1)\<rparr>"
    by (simp add: sample_defs)
  have later: "fst (getProxy sample_env ''Foo'' ''Foo.def'' 2
           (run sample_env [GetDefinitions ''Odd.def'']
              (snd (getProxy sample_env ''Foo'' ''Foo.def'' 1 (init sample_files)))))
     = Inr \<lparr>proxy_id = 4, proxy_body = (''Foo:f()'', 2)\<rparr>"
    by (simp add: sample_defs)
  have cached: "map_option fac_id
        (proxiesCache (snd (getProxy sample_env ''Foo'' ''Foo.def'' 1 (init sample_files))) ''Foo.def'')
     = Some 1"
    by (simp add: sample_defs)
  from first have h1: "getProxy sample_env ''Foo'' ''Foo.def'' 1 (init sample_files)
      = (Inr \<lparr>proxy_id = 2, proxy_body = (''Foo:f()'', 1)\<rparr>,
         snd (getProxy sample_env ''Foo'' ''Foo.def'' 1 (init sample_files)))"
    by (simp add: prod_eq_iff)
  from later have h2: "getProxy sample_env ''Foo'' ''Foo.def'' 2
           (run sample_env [GetDefinitions ''Odd.def'']
              (snd (getProxy sample_env ''Foo'' ''Foo.def'' 1 (init sample_files))))
      = (Inr \<lparr>proxy_id = 4, proxy_body = (''Foo:f()'', 2)\<rparr>,
         snd (getProxy sample_env ''Foo'' ''Foo.def'' 2
           (run sample_env [GetDefinitions ''Odd.def'']
              (snd (getProxy sample_env ''Foo'' ''Foo.def'' 1 (init sample_files))))))"
    by (simp add: prod_eq_iff del: run.simps)
  from getProxy_applies_one_factory_anew [OF h1 h2] cached first later
  show ?thesis by (auto simp del: run.simps)
qed

text \<open>
  C3, as stated, fails: \<open>createProxyFactory\<close> has no cache of its own. Called twice for
  the same path on the sample collaborators, it leaves \<open>proxiesCache\<close> empty, and the second
  call generates and loads again and returns a factory with a new identity.
\<close>

theorem createProxyFactory_does_not_cache_counterexample:
  "map_sum id fac_id (fst (createProxyFactory sample_env ''Foo'' False ''Foo.def'' (init sample_files)))
     = Inr 1
   \<and> proxiesCache (snd (createProxyFactory sample_env ''Foo'' False ''Foo.def'' (init sample_files)))
        ''Foo.def'' = None
   \<and> map_sum id fac_id
        (fst (createProxyFactory sample_env ''Foo'' False ''Foo.def''
               (snd (createProxyFactory sample_env ''Foo'' False ''Foo.def'' (init sample_files)))))
     = Inr 2
   \<and> trace (snd (createProxyFactory sample_env ''Foo'' False ''Foo.def''
               (snd (createProxyFactory sample_env ''Foo'' False ''Foo.def'' (init sample_files)))))
     = trace (snd (createProxyFactory sample_env ''Foo'' False ''Foo.def'' (init sample_files)))
       @ [EvGenerate ''Foo'' False 0,
          EvCompile \<lparr>m_filename = ''lib/FooProxy.js'', m_id = ''lib/FooProxy.js'',
                     m_paths = [], m_exports = ()\<rparr> ''Foo:f()'' ''FooProxy.js'',
          EvInject 2 [RxObservable, TrackOperationTiming]]"
  by (simp add: sample_defs)

text \<open>
  C3, amended. Every call of \<open>createProxyFactory(n, b, P)\<close> that returns has gone through the
  registry (\<open>getDefinitions\<close>), then the generator, then the loader, then \<open>inject\<close>, in this
  order, and has left \<open>proxiesCache\<close> as it was. The caching is done by its caller: when
  \<open>getProxy(n, P, c)\<close> misses, it stores that factory under \<open>P\<close>, and any later
  \<open>getProxy\<close> for \<open>P\<close> only applies it, with no generation and no loading.
\<close>

theorem createProxyFactory_builds_getProxy_caches:
  assumes create: "createProxyFactory env n b P s = (Inr f, s')"
  shows "(\<exists>defs code.
            fst (getDefinitions env P s) = Inr defs
            \<and> generateProxy env n b defs = Inr code
            \<and> compile env \<lparr>m_filename = uriJoin env (dirname env) (parsePathName env P @ ''Proxy.js''),
                            m_id = uriJoin env (dirname env) (parsePathName env P @ ''Proxy.js''),
                            m_paths = [], m_exports = ()\<rparr>
                 code (parsePathName env P @ ''Proxy.js'') = Inr (fac_exports f)
            \<and> trace s' = trace (snd (getDefinitions env P s)) @
                 [EvGenerate n b (def_id defs),
                  EvCompile \<lparr>m_filename = uriJoin env (dirname env) (parsePathName env P @ ''Proxy.js''),
                             m_id = uriJoin env (dirname env) (parsePathName env P @ ''Proxy.js''),
                             m_paths = [], m_exports = ()\<rparr>
                    code (parsePathName env P @ ''Proxy.js''),
                  EvInject (fac_id f) [RxObservable, TrackOperationTiming]])
         \<and> proxiesCache s' = proxiesCache s
         \<and> (\<not> b \<and> proxiesCache s P = None \<longrightarrow>
              proxiesCache (snd (getProxy env n P c s)) = (proxiesCache s)(P \<mapsto> f)
              \<and> trace (snd (getProxy env n' P c' (run env calls (snd (getProxy env n P c s)))))
                  = trace (run env calls (snd (getProxy env n P c s)))
                    @ [EvApply (fac_id f) [Context c']])"
proof -
  from createProxyFactory_ok [OF create] have build: "\<exists>defs code.
            fst (getDefinitions env P s) = Inr defs
            \<and> generateProxy env n b defs = Inr code
            \<and> compile env \<lparr>m_filename = uriJoin env (dirname env) (parsePathName env P @ ''Proxy.js''),
                            m_id = uriJoin env (dirname env) (parsePathName env P @ ''Proxy.js''),
                            m_paths = [], m_exports = ()\<rparr>
                 code (parsePathName env P @ ''Proxy.js'') = Inr (fac_exports f)
            \<and> trace s' = trace (snd (getDefinitions env P s)) @
                 [EvGenerate n b (def_id defs),
                  EvCompile \<lparr>m_filename = uriJoin env (dirname env) (parsePathName env P @ ''Proxy.js''),
                             m_id = uriJoin env (dirname env) (parsePathName env P @ ''Proxy.js''),
                             m_paths = [], m_exports = ()\<rparr>
                    code (parsePathName env P @ ''Proxy.js''),
                  EvInject (fac_id f) [RxObservable, TrackOperationTiming]]"
    by fastforce
  have frame: "proxiesCache s' = proxiesCache s"
    by (rule createProxyFactory_frame(1) [OF create])
  have cache: "proxiesCache (snd (getProxy env n P c s)) = (proxiesCache s)(P \<mapsto> f)
              \<and> trace (snd (getProxy env n' P c' (run env calls (snd (getProxy env n P c s)))))
                  = trace (run env calls (snd (getProxy env n P c s)))
                    @ [EvApply (fac_id f) [Context c']]"
    if "\<not> b" and miss: "proxiesCache s P = None"
  proof -
    let ?s1 = "s'\<lparr>proxiesCache := (proxiesCache s')(P \<mapsto> f)\<rparr>"
    from create \<open>\<not> b\<close> have "getProxy env n P c s = getProxy env n P c ?s1"
      by (simp add: getProxy_miss [OF miss])
    moreover have hit: "proxiesCache ?s1 P = Some f" by simp
    moreover have "proxiesCache (snd (getProxy env n P c ?s1)) = proxiesCache ?s1"
      by (simp add: getProxy_hit [OF hit] split: sum.splits)
    ultimately have stored: "proxiesCache (snd (getProxy env n P c s)) = (proxiesCache s)(P \<mapsto> f)"
      by (simp add: frame)
    have "keeps (snd (getProxy env n P c s)) (run env calls (snd (getProxy env n P c s)))"
      by (rule run_keeps)
    from keeps_proxies [OF this, of P f] stored
    have "proxiesCache (run env calls (snd (getProxy env n P c s))) P = Some f" by simp
    from getProxy_hit_trace [OF this] stored show ?thesis by simp
  qed
  from build frame cache show ?thesis by blast
qed

theorem createProxyFactory_builds_getProxy_caches_witness:
  "proxiesCache (snd (createProxyFactory sample_env ''Foo'' False ''Foo.def'' (init sample_files)))
     = proxiesCache (init sample_files :: (string, nat, string \<times> nat) state)
   \<and> map_option fac_id
       (proxiesCache (snd (getProxy sample_env ''Foo'' ''Foo.def'' 1 (init sample_files))) ''Foo.def'')
     = Some 1
   \<and> trace (snd (getProxy sample_env ''Foo'' ''Foo.def'' 2
        (run sample_env [FileChange ''Foo.def'' None]
           (snd (getProxy sample_env ''Foo'' ''Foo.def'' 1 (init sample_files))))))
     = trace (run sample_env [FileChange ''Foo.def'' None]
           (snd (getProxy sample_env ''Foo'' ''Foo.def'' 1 (init sample_files))))
       @ [EvApply 1 [Context 2]]"
proof -
  have miss: "proxiesCache (init sample_files :: (string, nat, string \<times> nat) state) ''Foo.def'' = None"
    by (simp add: init_def)
  have "fst (createProxyFactory sample_env ''Foo'' False ''Foo.def'' (init sample_files))
          = Inr \<lparr>fac_id = 1, fac_exports = 
               \<lparr>ex_inject = (\<lambda>args. None),
                ex_call = (\<lambda>args. case args of [Context c] \<Rightarrow> Inr (''Foo:f()'', c)
                                   | _ \<Rightarrow> Inl TypeError)\<rparr>\<rparr>"
    by (simp add: sample_defs)
  then have create: "createProxyFactory sample_env ''Foo'' False ''Foo.def'' (init sample_files)
      = (Inr \<lparr>fac_id = 1, fac_exports = 
               \<lparr>ex_inject = (\<lambda>args. None),
                ex_call = (\<lambda>args. case args of [Context c] \<Rightarrow> Inr (''Foo:f()'', c)
                                   | _ \<Rightarrow> Inl TypeError)\<rparr>\<rparr>,
         snd (createProxyFactory sample_env ''Foo'' False ''Foo.def'' (init sample_files)))"
    by (simp add: prod_eq_iff)
  from createProxyFactory_builds_getProxy_caches
         [OF create, where c = 1 and c' = 2 and n' = "''Foo''"
            and calls = "[FileChange ''Foo.def'' None]"] miss
  show ?thesis by (simp del: run.simps)
qed

text \<open>
  C4, as stated, fails: when the generator throws inside \<open>getProxy\<close>, the definition parsed
  on the way is already in \<open>definitionsCache\<close> and stays there.
\<close>

theorem failed_generation_keeps_definition_counterexample:
  "fst (getProxy sample_env ''Odd'' ''Odd.def'' 1 (init sample_files)) = Inl UnsupportedTypeError
   \<and> definitionsCache (init sample_files :: (string, nat, string \<times> nat) state) ''Odd.def'' = None
   \<and> definitionsCache (snd (getProxy sample_env ''Odd'' ''Odd.def'' 1 (init sample_files))) ''Odd.def''
       = Some \<lparr>def_id = 0, def_body = ''?''\<rparr>"
  by (simp add: sample_defs)

text \<open>
  C4, amended. When \<open>getDefinitions(P)\<close> throws (in resolving, reading or parsing), both caches
  are unchanged, and \<open>createProxyFactory\<close> for \<open>P\<close> throws the same error from the same state.
  When \<open>createProxyFactory(n, b, P)\<close> throws (in parsing, generation, loading or \<open>inject\<close>),
  \<open>proxiesCache\<close> is unchanged, and a \<open>getProxy(n, P, c)\<close> that missed throws the same error
  from the same state, so \<open>P\<close> is still missing and the next call builds again. If it was
  \<open>getDefinitions\<close> that threw, \<open>definitionsCache\<close> is unchanged too; if \<open>getDefinitions\<close>
  returned, the definition it returned is cached under \<open>P\<close> and a later call does not parse
  again.
\<close>

theorem failure_caches_no_factory:
  "(getDefinitions env P s = (Inl e, s') \<longrightarrow>
      definitionsCache s' = definitionsCache s \<and> proxiesCache s' = proxiesCache s
      \<and> createProxyFactory env n b P s = (Inl e, s'))
   \<and> (createProxyFactory env n b P s = (Inl e, s') \<longrightarrow>
        proxiesCache s' = proxiesCache s
        \<and> (\<not> b \<and> proxiesCache s P = None \<longrightarrow> getProxy env n P c s = (Inl e, s'))
        \<and> (case getDefinitions env P s of
             (Inl e', s1) \<Rightarrow> e' = e \<and> s' = s1 \<and> definitionsCache s' = definitionsCache s
           | (Inr defs, s1) \<Rightarrow>
               definitionsCache s' = definitionsCache s1 \<and> definitionsCache s' P = Some defs))"
proof (intro conjI impI)
  assume thrown: "getDefinitions env P s = (Inl e, s')"
  from getDefinitions_err_frame [OF thrown]
  show "definitionsCache s' = definitionsCache s" .
  from getDefinitions_frame(1) [OF thrown]
  show "proxiesCache s' = proxiesCache s" .
  from thrown show "createProxyFactory env n b P s = (Inl e, s')"
    by (simp add: createProxyFactory_def)
next
  assume fail: "createProxyFactory env n b P s = (Inl e, s')"
  from createProxyFactory_failure [OF fail]
  show "proxiesCache s' = proxiesCache s" by (rule conjunct1)
next
  assume fail: "createProxyFactory env n b P s = (Inl e, s')"
    and miss: "\<not> b \<and> proxiesCache s P = None"
  from createProxyFactory_failure [OF fail, of c] miss
  show "getProxy env n P c s = (Inl e, s')" by simp
next
  assume fail: "createProxyFactory env n b P s = (Inl e, s')"
  from createProxyFactory_failure [OF fail, of c]
  show "case getDefinitions env P s of
          (Inl e', s1) \<Rightarrow> e' = e \<and> s' = s1 \<and> definitionsCache s' = definitionsCache s
        | (Inr defs, s1) \<Rightarrow>
            definitionsCache s' = definitionsCache s1 \<and> definitionsCache s' P = Some defs"
    by (rule conjunct2 [THEN conjunct2])
qed

theorem failure_caches_no_factory_witness:
  "getProxy sample_env ''Odd'' ''Odd.def'' 1 (init sample_files)
     = (Inl UnsupportedTypeError,
        snd (createProxyFactory sample_env ''Odd'' False ''Odd.def'' (init sample_files)))
   \<and> proxiesCache (snd (createProxyFactory sample_env ''Odd'' False ''Odd.def'' (init sample_files)))
       = proxiesCache (init sample_files :: (string, nat, string \<times> nat) state)
   \<and> fst (getDefinitions sample_env ''Gone.def'' (init sample_files)) = Inl ModuleNotFound
   \<and> definitionsCache (snd (getDefinitions sample_env ''Gone.def'' (init sample_files)))
       = definitionsCache (init sample_files :: (string, nat, string \<times> nat) state)
   \<and> getProxy sample_env ''Gone'' ''Gone.def'' 1 (init sample_files)
       = (Inl ModuleNotFound, snd (getDefinitions sample_env ''Gone.def'' (init sample_files)))"
proof -
  let ?s = "init sample_files :: (string, nat, string \<times> nat) state"
  have miss: "proxiesCache ?s ''Odd.def'' = None" "proxiesCache ?s ''Gone.def'' = None"
    by (simp_all add: init_def)
  have "fst (createProxyFactory sample_env ''Odd'' False ''Odd.def'' ?s) = Inl UnsupportedTypeError"
    by (simp add: sample_defs)
  then have fail: "createProxyFactory sample_env ''Odd'' False ''Odd.def'' ?s
      = (Inl UnsupportedTypeError, snd (createProxyFactory sample_env ''Odd'' False ''Odd.def'' ?s))"
    by (simp add: prod_eq_iff)
  have gone: "fst (getDefinitions sample_env ''Gone.def'' ?s) = Inl ModuleNotFound"
    by (simp add: sample_defs)
  then have thrown: "getDefinitions sample_env ''Gone.def'' ?s
      = (Inl ModuleNotFound, snd (getDefinitions sample_env ''Gone.def'' ?s))"
    by (simp add: prod_eq_iff)
  from failure_caches_no_factory
         [of sample_env "''Odd.def''" ?s UnsupportedTypeError
             "snd (createProxyFactory sample_env ''Odd'' False ''Odd.def'' ?s)" "''Odd''" False 1]
    fail miss
  have odd: "getProxy sample_env ''Odd'' ''Odd.def'' 1 ?s
     = (Inl UnsupportedTypeError, snd (createProxyFactory sample_env ''Odd'' False ''Odd.def'' ?s))"
    "proxiesCache (snd (createProxyFactory sample_env ''Odd'' False ''Odd.def'' ?s)) = proxiesCache ?s"
    by simp_all
  from failure_caches_no_factory
         [of sample_env "''Gone.def''" ?s ModuleNotFound
             "snd (getDefinitions sample_env ''Gone.def'' ?s)" "''Gone''" False 1]
    thrown miss
  have "definitionsCache (snd (getDefinitions sample_env ''Gone.def'' ?s)) = definitionsCache ?s"
    "getProxy sample_env ''Gone'' ''Gone.def'' 1 ?s
       = (Inl ModuleNotFound, snd (getDefinitions sample_env ''Gone.def'' ?s))"
    by simp_all
  with odd gone show ?thesis by simp
qed

text \<open>
  C5, as stated, fails: the factory is applied to the context alone. In two \<open>getProxy\<close> calls
  for one path the instrumentation goes through \<open>inject\<close> once, when the factory is created,
  and the second call, which hits the cache, hands over nothing but its context.
\<close>

theorem application_gets_context_only_counterexample:
  "application_args
     (trace (snd (getProxy sample_env ''Foo'' ''Foo.def'' 2
                    (snd (getProxy sample_env ''Foo'' ''Foo.def'' 1 (init sample_files))))))
     = [[Context 1], [Context 2]]
   \<and> inject_args
     (trace (snd (getProxy sample_env ''Foo'' ''Foo.def'' 2
                    (snd (getProxy sample_env ''Foo'' ''Foo.def'' 1 (init sample_files))))))
     = [[RxObservable, TrackOperationTiming]]
   \<and> trace (snd (getProxy sample_env ''Foo'' ''Foo.def'' 2
                    (snd (getProxy sample_env ''Foo'' ''Foo.def'' 1 (init sample_files)))))
     = trace (snd (getProxy sample_env ''Foo'' ''Foo.def'' 1 (init sample_files)))
       @ [EvApply 1 [Context 2]]"
  by (simp add: sample_defs)

text \<open>
  C5, amended. A \<open>getProxy(n, P, c)\<close> that returns ends with one application of the cached
  factory to the single argument \<open>c\<close>. On a cache hit it does nothing else. On a miss the
  event just before is the one call \<open>inject(Rx.Observable, trackOperationTiming)\<close> on the new
  factory, which returned normally: the instrumentation reaches the module once, at creation,
  and never as an argument of an application.
\<close>

theorem instrumentation_injected_at_creation:
  assumes ok: "getProxy env n P c s = (Inr p, s')"
  shows "\<exists>f evs. proxiesCache s' P = Some f
           \<and> ex_call (fac_exports f) [Context c] = Inr (proxy_body p)
           \<and> trace s' = trace s @ evs @ [EvApply (fac_id f) [Context c]]
           \<and> application_args evs = []
           \<and> (if proxiesCache s P = None
               then inject_args evs = [[RxObservable, TrackOperationTiming]]
                    \<and> last evs = EvInject (fac_id f) [RxObservable, TrackOperationTiming]
                    \<and> ex_inject (fac_exports f) [RxObservable, TrackOperationTiming] = None
               else evs = [])"
  using ok
proof (cases rule: getProxy_cases)
  case (apply_ok f s1 body)
  from getProxy_before_apply(2) [OF apply_ok(1)] apply_ok(4)
  have cached: "proxiesCache s' P = Some f" by simp
  from apply_ok(2,3) have app: "ex_call (fac_exports f) [Context c] = Inr (proxy_body p)"
    by simp
  from apply_ok(4) have tr: "trace s' = trace s1 @ [EvApply (fac_id f) [Context c]]" by simp
  show ?thesis
  proof (cases "proxiesCache s P")
    case None
    with apply_ok(1) obtain s0 where
      create: "createProxyFactory env n False P s = (Inr f, s0)"
      and s1: "s1 = s0\<lparr>proxiesCache := (proxiesCache s0)(P \<mapsto> f)\<rparr>"
      by auto
    from createProxyFactory_ok [OF create] obtain defs sd code where
      gd: "getDefinitions env P s = (Inr defs, sd)"
      and inj: "ex_inject (fac_exports f) [RxObservable, TrackOperationTiming] = None"
      and s0: "trace s0 = trace sd @
                 [EvGenerate n False (def_id defs),
                  EvCompile \<lparr>m_filename = uriJoin env (dirname env) (parsePathName env P @ ''Proxy.js''),
                             m_id = uriJoin env (dirname env) (parsePathName env P @ ''Proxy.js''),
                             m_paths = [], m_exports = ()\<rparr>
                    code (parsePathName env P @ ''Proxy.js''),
                  EvInject (fac_id f) [RxObservable, TrackOperationTiming]]"
      by auto
    from getDefinitions_events [OF gd] obtain evs0 where
      sd: "trace sd = trace s @ evs0" and reg: "registry_events evs0"
      by blast
    let ?evs = "evs0 @
                 [EvGenerate n False (def_id defs),
                  EvCompile \<lparr>m_filename = uriJoin env (dirname env) (parsePathName env P @ ''Proxy.js''),
                             m_id = uriJoin env (dirname env) (parsePathName env P @ ''Proxy.js''),
                             m_paths = [], m_exports = ()\<rparr>
                    code (parsePathName env P @ ''Proxy.js''),
                  EvInject (fac_id f) [RxObservable, TrackOperationTiming]]"
    from tr s1 s0 sd have "trace s' = trace s @ ?evs @ [EvApply (fac_id f) [Context c]]"
      by simp
    moreover from reg have "application_args ?evs = []"
      and "inject_args ?evs = [[RxObservable, TrackOperationTiming]]"
      by (simp_all add: registry_events_def)
    moreover have "last ?evs = EvInject (fac_id f) [RxObservable, TrackOperationTiming]"
      by simp
    ultimately show ?thesis using cached app inj None
      by (intro exI [of _ f] exI [of _ ?evs]) simp
  next
    case (Some g)
    with apply_ok(1) have "s1 = s" by auto
    with tr cached app Some show ?thesis
      by (intro exI [of _ f] exI [of _ "[]"]) simp
  qed
qed simp_all

theorem instrumentation_injected_at_creation_witness:
  "map_option fac_id
     (proxiesCache (snd (getProxy sample_env ''Foo'' ''Foo.def'' 1 (init sample_files))) ''Foo.def'')
     = Some 1
   \<and> trace (snd (getProxy sample_env ''Foo'' ''Foo.def'' 1 (init sample_files)))
     = [EvResolve ''Foo.def'', EvRead ''Foo.def'', EvParse ''Foo.def'' ''Foo.def'' ''f()'',
        EvGenerate ''Foo'' False 0,
        EvCompile \<lparr>m_filename = ''lib/FooProxy.js'', m_id = ''lib/FooProxy.js'',
                   m_paths = [], m_exports = ()\<rparr> ''Foo:f()'' ''FooProxy.js'',
        EvInject 1 [RxObservable, TrackOperationTiming],
        EvApply 1 [Context 1]]
   \<and> (\<exists>evs. trace (snd (getProxy sample_env ''Foo'' ''Foo.def'' 1 (init sample_files)))
               = evs @ [EvApply 1 [Context 1]]
             \<and> application_args evs = []
             \<and> inject_args evs = [[RxObservable, TrackOperationTiming]])"
proof -
  have miss: "proxiesCache (init sample_files :: (string, nat, string \<times> nat) state) ''Foo.def'' = None"
    and empty: "trace (init sample_files :: (string, nat, string \<times> nat) state) = []"
    by (simp_all add: init_def)
  have cached: "map_option fac_id
     (proxiesCache (snd (getProxy sample_env ''Foo'' ''Foo.def'' 1 (init sample_files))) ''Foo.def'')
     = Some 1"
    by (simp add: sample_defs)
  have tr: "trace (snd (getProxy sample_env ''Foo'' ''Foo.def'' 1 (init sample_files)))
     = [EvResolve ''Foo.def'', EvRead ''Foo.def'', EvParse ''Foo.def'' ''Foo.def'' ''f()'',
        EvGenerate ''Foo'' False 0,
        EvCompile \<lparr>m_filename = ''lib/FooProxy.js'', m_id = ''lib/FooProxy.js'',
                   m_paths = [], m_exports = ()\<rparr> ''Foo:f()'' ''FooProxy.js'',
        EvInject 1 [RxObservable, TrackOperationTiming],
        EvApply 1 [Context 1]]"
    by (simp add: sample_defs)
  have "fst (getProxy sample_env ''Foo'' ''Foo.def'' 1 (init sample_files))
          = Inr \<lparr>proxy_id = 2, proxy_body = (''Foo:f()'', 1)\<rparr>"
    by (simp add: sample_defs)
  then have ok: "getProxy sample_env ''Foo'' ''Foo.def'' 1 (init sample_files)
      = (Inr \<lparr>proxy_id = 2, proxy_body = (''Foo:f()'', 1)\<rparr>,
         snd (getProxy sample_env ''Foo'' ''Foo.def'' 1 (init sample_files)))"
    by (simp add: prod_eq_iff)
  from instrumentation_injected_at_creation [OF ok] miss empty cached
  have "\<exists>evs. trace (snd (getProxy sample_env ''Foo'' ''Foo.def'' 1 (init sample_files)))
               = evs @ [EvApply 1 [Context 1]]
             \<and> application_args evs = []
             \<and> inject_args evs = [[RxObservable, TrackOperationTiming]]"
    by auto
  with cached tr show ?thesis by blast
qed

text \<open>
  C6, as stated, fails in its first half: the name handed to the loader does not come from
  the name of the service. Two paths holding the same definition, built under the same
  service name, are loaded under different names, and one path built under two service names
  is loaded under the same name.
\<close>

theorem loader_name_follows_path_counterexample:
  "compiled_filenames
     (trace (snd (createProxyFactory sample_env ''Svc'' False ''Foo.def'' (init sample_files))))
     = [''FooProxy.js'']
   \<and> compiled_filenames
     (trace (snd (createProxyFactory sample_env ''Svc'' False ''Bar.def'' (init sample_files))))
     = [''BarProxy.js'']
   \<and> compiled_filenames
     (trace (snd (createProxyFactory sample_env ''Other'' False ''Foo.def'' (init sample_files))))
     = [''FooProxy.js'']
   \<and> map_option def_body
       (definitionsCache
          (snd (createProxyFactory sample_env ''Svc'' False ''Foo.def'' (init sample_files)))
          ''Foo.def'')
     = map_option def_body
       (definitionsCache
          (snd (createProxyFactory sample_env ''Svc'' False ''Bar.def'' (init sample_files)))
          ''Bar.def'')"
  by (simp add: sample_defs)

text \<open>
  C6, amended. The file name handed to the loader by \<open>createProxyFactory(n, b, P)\<close> is
  \<open>parsePath(P).name + 'Proxy.js'\<close>: it comes from the path alone, not from \<open>n\<close>, \<open>b\<close> or
  the parsed definition, and it goes to the loader and nowhere else. Insertion is under \<open>P\<close>:
  the only key the call adds to \<open>definitionsCache\<close> is \<open>P\<close>, \<open>proxiesCache\<close> is untouched,
  and a \<open>getProxy\<close> for \<open>P\<close> adds no key but \<open>P\<close> to either cache. Lookup is under \<open>P\<close>:
  an entry under \<open>P\<close> is a hit (\<open>getDefinitions\<close> returns it and does nothing, \<open>getProxy\<close>
  only applies it), no entry under \<open>P\<close> is a miss (\<open>getDefinitions\<close> starts to resolve,
  \<open>getProxy\<close> builds through \<open>createProxyFactory\<close> and stores), and what either cache holds
  under any other key \<open>K\<close>, the synthetic name included, changes neither the result of the
  three functions nor the state they leave, apart from those entries themselves.
\<close>

theorem loader_name_from_path_caches_keyed_by_path:
  "(createProxyFactory env n b P s = (Inr f, s') \<longrightarrow>
      (\<exists>evs. trace s' = trace s @ evs
             \<and> compiled_filenames evs = [parsePathName env P @ ''Proxy.js''])
      \<and> dom (definitionsCache s') = insert P (dom (definitionsCache s))
      \<and> proxiesCache s' = proxiesCache s)
   \<and> dom (definitionsCache (snd (getProxy env n' P c s))) \<subseteq> insert P (dom (definitionsCache s))
   \<and> dom (proxiesCache (snd (getProxy env n' P c s))) \<subseteq> insert P (dom (proxiesCache s))
   \<and> (definitionsCache s P = Some d \<longrightarrow> getDefinitions env P s = (Inr d, s))
   \<and> (definitionsCache s P = None \<longrightarrow>
        (\<exists>evs. trace (snd (getDefinitions env P s)) = trace s @ EvResolve P # evs))
   \<and> (proxiesCache s P = Some g \<longrightarrow>
        trace (snd (getProxy env n' P c s)) = trace s @ [EvApply (fac_id g) [Context c]])
   \<and> (proxiesCache s P = None \<longrightarrow>
        getProxy env n' P c s =
          (case createProxyFactory env n' False P s of
             (Inl e, s1) \<Rightarrow> (Inl e, s1)
           | (Inr h, s1) \<Rightarrow>
               getProxy env n' P c (s1\<lparr>proxiesCache := (proxiesCache s1)(P \<mapsto> h)\<rparr>)))
   \<and> (K \<noteq> P \<longrightarrow>
        getDefinitions env P (poke K v w s)
          = (fst (getDefinitions env P s), poke K v w (snd (getDefinitions env P s)))
        \<and> createProxyFactory env n b P (poke K v w s)
            = (fst (createProxyFactory env n b P s),
               poke K v w (snd (createProxyFactory env n b P s)))
        \<and> getProxy env n' P c (poke K v w s)
            = (fst (getProxy env n' P c s), poke K v w (snd (getProxy env n' P c s))))"
proof -
  have built: "(\<exists>evs. trace s' = trace s @ evs
             \<and> compiled_filenames evs = [parsePathName env P @ ''Proxy.js''])
      \<and> dom (definitionsCache s') = insert P (dom (definitionsCache s))
      \<and> proxiesCache s' = proxiesCache s"
    if create: "createProxyFactory env n b P s = (Inr f, s')"
    using createProxyFactory_name_and_keys [OF create] by blast
  have keys: "dom (definitionsCache (snd (getProxy env n' P c s))) \<subseteq> insert P (dom (definitionsCache s))"
    "dom (proxiesCache (snd (getProxy env n' P c s))) \<subseteq> insert P (dom (proxiesCache s))"
    using getProxy_frame [OF surjective_pairing, of env n' P c s] by simp_all
  have other: "getDefinitions env P (poke K v w s)
          = (fst (getDefinitions env P s), poke K v w (snd (getDefinitions env P s)))
        \<and> createProxyFactory env n b P (poke K v w s)
            = (fst (createProxyFactory env n b P s),
               poke K v w (snd (createProxyFactory env n b P s)))
        \<and> getProxy env n' P c (poke K v w s)
            = (fst (getProxy env n' P c s), poke K v w (snd (getProxy env n' P c s)))"
    if "K \<noteq> P"
    using that by (simp only: getDefinitions_poke createProxyFactory_poke getProxy_poke simp_thms)
  have c1: "createProxyFactory env n b P s = (Inr f, s') \<longrightarrow>
      (\<exists>evs. trace s' = trace s @ evs
             \<and> compiled_filenames evs = [parsePathName env P @ ''Proxy.js''])
      \<and> dom (definitionsCache s') = insert P (dom (definitionsCache s))
      \<and> proxiesCache s' = proxiesCache s"
    using built by (rule impI)
  have c4: "definitionsCache s P = Some d \<longrightarrow> getDefinitions env P s = (Inr d, s)"
    by (simp add: getDefinitions_hit)
  have c5: "definitionsCache s P = None \<longrightarrow>
        (\<exists>evs. trace (snd (getDefinitions env P s)) = trace s @ EvResolve P # evs)"
    using getDefinitions_miss_resolves [of s P env] by (rule impI)
  have c6: "proxiesCache s P = Some g \<longrightarrow>
        trace (snd (getProxy env n' P c s)) = trace s @ [EvApply (fac_id g) [Context c]]"
    using getProxy_hit_trace [of s P g env n' c] by (rule impI)
  have c7: "proxiesCache s P = None \<longrightarrow>
        getProxy env n' P c s =
          (case createProxyFactory env n' False P s of
             (Inl e, s1) \<Rightarrow> (Inl e, s1)
           | (Inr h, s1) \<Rightarrow>
               getProxy env n' P c (s1\<lparr>proxiesCache := (proxiesCache s1)(P \<mapsto> h)\<rparr>))"
    using getProxy_miss [of s P env n' c] by (rule impI)
  have c8: "K \<noteq> P \<longrightarrow>
        getDefinitions env P (poke K v w s)
          = (fst (getDefinitions env P s), poke K v w (snd (getDefinitions env P s)))
        \<and> createProxyFactory env n b P (poke K v w s)
            = (fst (createProxyFactory env n b P s),
               poke K v w (snd (createProxyFactory env n b P s)))
        \<and> getProxy env n' P c (poke K v w s)
            = (fst (getProxy env n' P c s), poke K v w (snd (getProxy env n' P c s)))"
    using other by (rule impI)
  show ?thesis
    by (rule conjI c1 keys c4 c5 c6 c7 c8)+
qed

theorem loader_name_from_path_caches_keyed_by_path_witness:
  "parsePathName sample_env ''Foo.def'' @ ''Proxy.js'' = ''FooProxy.js''
   \<and> dom (definitionsCache
            (snd (createProxyFactory sample_env ''Svc'' True ''Foo.def'' (init sample_files))))
       = {''Foo.def''}
   \<and> dom (proxiesCache (snd (getProxy sample_env ''Svc'' ''Foo.def'' 1 (init sample_files))))
       \<subseteq> {''Foo.def''}
   \<and> fst (getDefinitions sample_env ''Foo.def''
           (poke ''FooProxy.js'' (Some \<lparr>def_id = 7, def_body = ''x''\<rparr>) None (init sample_files)))
       = Inr \<lparr>def_id = 0, def_body = ''f()''\<rparr>
   \<and> getDefinitions sample_env ''Foo.def''
        (snd (getProxy sample_env ''Svc'' ''Foo.def'' 1 (init sample_files)))
       = (Inr \<lparr>def_id = 0, def_body = ''f()''\<rparr>,
          snd (getProxy sample_env ''Svc'' ''Foo.def'' 1 (init sample_files)))
   \<and> trace (snd (getProxy sample_env ''Svc'' ''Foo.def'' 2
                   (snd (getProxy sample_env ''Svc'' ''Foo.def'' 1 (init sample_files)))))
       = trace (snd (getProxy sample_env ''Svc'' ''Foo.def'' 1 (init sample_files)))
         @ [EvApply 1 [Context 2]]"
proof -
  let ?s = "init sample_files :: (string, nat, string \<times> nat) state"
  let ?t = "snd (getProxy sample_env ''Svc'' ''Foo.def'' 1 ?s)"
  let ?g = "\<lparr>fac_id = 1, fac_exports =
               \<lparr>ex_inject = (\<lambda>args. None),
                ex_call = (\<lambda>args. case args of [Context c] \<Rightarrow> Inr (''Svc:f()'', c)
                                   | _ \<Rightarrow> Inl TypeError)\<rparr>\<rparr> :: (nat, string \<times> nat) proxy_factory"
  have empty: "dom (definitionsCache ?s) = {}" "dom (proxiesCache ?s) = {}"
    and miss: "definitionsCache ?s ''Foo.def'' = None" "proxiesCache ?s ''Foo.def'' = None"
    by (simp_all add: init_def)
  have name: "parsePathName sample_env ''Foo.def'' @ ''Proxy.js'' = ''FooProxy.js''"
    by (simp add: sample_env_def)
  have other: "''FooProxy.js'' \<noteq> ''Foo.def''" by simp
  have "fst (createProxyFactory sample_env ''Svc'' True ''Foo.def'' ?s) = Inr ?g"
    by (simp add: sample_defs)
  then have create: "createProxyFactory sample_env ''Svc'' True ''Foo.def'' ?s
      = (Inr ?g, snd (createProxyFactory sample_env ''Svc'' True ''Foo.def'' ?s))"
    by (simp add: prod_eq_iff)
  have parsed: "fst (getDefinitions sample_env ''Foo.def'' ?s) = Inr \<lparr>def_id = 0, def_body = ''f()''\<rparr>"
    by (simp add: sample_defs)
  have hit: "definitionsCache ?t ''Foo.def'' = Some \<lparr>def_id = 0, def_body = ''f()''\<rparr>"
    "proxiesCache ?t ''Foo.def'' = Some ?g"
    by (simp_all add: sample_defs)
  note fresh = loader_name_from_path_caches_keyed_by_path
         [of sample_env "''Svc''" True "''Foo.def''" ?s ?g
             "snd (createProxyFactory sample_env ''Svc'' True ''Foo.def'' ?s)" "''Svc''" 1
             "\<lparr>def_id = 0, def_body = ''f()''\<rparr>" ?g "''FooProxy.js''"
             "Some \<lparr>def_id = 7, def_body = ''x''\<rparr>" None]
  from fresh [THEN conjunct1, THEN mp, OF create, THEN conjunct2, THEN conjunct1] empty
  have a1: "dom (definitionsCache (snd (createProxyFactory sample_env ''Svc'' True ''Foo.def'' ?s)))
             = {''Foo.def''}"
    by simp
  from fresh [THEN conjunct2, THEN conjunct2, THEN conjunct1] empty
  have a2: "dom (proxiesCache ?t) \<subseteq> {''Foo.def''}"
    by simp
  from fresh [THEN conjunct2, THEN conjunct2, THEN conjunct2, THEN conjunct2, THEN conjunct2,
              THEN conjunct2, THEN conjunct2, THEN mp, OF other, THEN conjunct1] parsed
  have a3: "fst (getDefinitions sample_env ''Foo.def''
           (poke ''FooProxy.js'' (Some \<lparr>def_id = 7, def_body = ''x''\<rparr>) None ?s))
       = Inr \<lparr>def_id = 0, def_body = ''f()''\<rparr>"
    by simp
  note cached = loader_name_from_path_caches_keyed_by_path
         [of sample_env "''Svc''" True "''Foo.def''" ?t _ _ "''Svc''" 2
             "\<lparr>def_id = 0, def_body = ''f()''\<rparr>" ?g "''FooProxy.js''" None None]
  from cached [THEN conjunct2, THEN conjunct2, THEN conjunct2, THEN conjunct1, THEN mp, OF hit(1)]
  have b1: "getDefinitions sample_env ''Foo.def'' ?t = (Inr \<lparr>def_id = 0, def_body = ''f()''\<rparr>, ?t)" .
  from cached [THEN conjunct2, THEN conjunct2, THEN conjunct2, THEN conjunct2, THEN conjunct2,
               THEN conjunct1, THEN mp, OF hit(2)]
  have b2: "trace (snd (getProxy sample_env ''Svc'' ''Foo.def'' 2 ?t)) = trace ?t @ [EvApply 1 [Context 2]]"
    by simp
  from name a1 a2 a3 b1 b2 show ?thesis by (intro conjI)
qed

text \<open>
  C7, as stated, fails: with lookup paths empty, the module that \<open>loadCodeAsModule\<close> hands to
  \<open>_compile\<close> still resolves a core module and, through its file name in the directory of
  main.js, a sibling of main.js that the process has loaded.
\<close>

theorem loaded_module_resolves_builtin_and_sibling_counterexample:
  "trace (snd (loadCodeAsModule sample_env ''Foo:f()'' ''FooProxy.js'' (init sample_tree)))
     = [EvCompile \<lparr>m_filename = ''lib/FooProxy.js'', m_id = ''lib/FooProxy.js'',
                   m_paths = [], m_exports = ()\<rparr> ''Foo:f()'' ''FooProxy.js'']
   \<and> require_resolve sample_runtime sample_tree
        \<lparr>m_filename = ''lib/FooProxy.js'', m_id = ''lib/FooProxy.js'',
         m_paths = [], m_exports = ()\<rparr> ''fs'' = Inr ''fs''
   \<and> require_resolve sample_runtime sample_tree
        \<lparr>m_filename = ''lib/FooProxy.js'', m_id = ''lib/FooProxy.js'',
         m_paths = [], m_exports = ()\<rparr> ''./service-parser'' = Inr ''lib/service-parser.js''"
  by (simp add: sample_defs resolver_defs)

text \<open>
  C7, amended. The module that \<open>loadCodeAsModule(code, filename)\<close> hands to \<open>_compile\<close> has
  no lookup paths and the file name \<open>join(__dirname, filename)\<close>, and so has the module it
  returns. A \<open>require\<close> in it of a core module resolves; of a path, it resolves against the
  directory of main.js as for any module there; of a bare name, it is looked for in the
  global folders only, in no \<open>node_modules\<close> folder, and fails when there are no global
  folders.
\<close>

theorem loaded_module_resolution:
  "trace (snd (loadCodeAsModule env code filename s))
     = trace s @
       [EvCompile \<lparr>m_filename = uriJoin env (dirname env) filename,
                   m_id = uriJoin env (dirname env) filename,
                   m_paths = [], m_exports = ()\<rparr> code filename]
   \<and> (request \<in> set (core_modules rt) \<longrightarrow>
        require_resolve rt files
          \<lparr>m_filename = uriJoin env (dirname env) filename,
           m_id = uriJoin env (dirname env) filename,
           m_paths = [], m_exports = ()\<rparr> request = Inr request)
   \<and> (request \<notin> set (core_modules rt) \<and> is_path_request request \<longrightarrow>
        require_resolve rt files
          \<lparr>m_filename = uriJoin env (dirname env) filename,
           m_id = uriJoin env (dirname env) filename,
           m_paths = [], m_exports = ()\<rparr> request
          = (case load_path files
                    (path_resolve rt (path_dirname rt (uriJoin env (dirname env) filename)) request) of
               None \<Rightarrow> Inl ModuleNotFound
             | Some found \<Rightarrow> Inr found))
   \<and> (request \<notin> set (core_modules rt) \<and> \<not> is_path_request request \<longrightarrow>
        require_resolve rt files
          \<lparr>m_filename = uriJoin env (dirname env) filename,
           m_id = uriJoin env (dirname env) filename,
           m_paths = [], m_exports = ()\<rparr> request
          = (case load_from_folders rt files (global_folders rt) request of
               None \<Rightarrow> Inl ModuleNotFound
             | Some found \<Rightarrow> Inr found))
   \<and> (request \<notin> set (core_modules rt) \<and> \<not> is_path_request request \<and> global_folders rt = [] \<longrightarrow>
        require_resolve rt files
          \<lparr>m_filename = uriJoin env (dirname env) filename,
           m_id = uriJoin env (dirname env) filename,
           m_paths = [], m_exports = ()\<rparr> request = Inl ModuleNotFound)
   \<and> (case fst (loadCodeAsModule env code filename s) of
         Inl e \<Rightarrow> True
       | Inr loaded \<Rightarrow>
           m_paths loaded = [] \<and> m_filename loaded = uriJoin env (dirname env) filename
           \<and> require_resolve rt files loaded request
               = require_resolve rt files
                   \<lparr>m_filename = uriJoin env (dirname env) filename,
                    m_id = uriJoin env (dirname env) filename,
                    m_paths = [], m_exports = ()\<rparr> request)"
proof -
  have "trace (snd (loadCodeAsModule env code filename s))
     = trace s @
       [EvCompile \<lparr>m_filename = uriJoin env (dirname env) filename,
                   m_id = uriJoin env (dirname env) filename,
                   m_paths = [], m_exports = ()\<rparr> code filename]"
    by (simp add: loadCodeAsModule_def Let_def split: sum.splits)
  moreover have "case fst (loadCodeAsModule env code filename s) of
         Inl e \<Rightarrow> True
       | Inr loaded \<Rightarrow>
           m_paths loaded = [] \<and> m_filename loaded = uriJoin env (dirname env) filename
           \<and> require_resolve rt files loaded request
               = require_resolve rt files
                   \<lparr>m_filename = uriJoin env (dirname env) filename,
                    m_id = uriJoin env (dirname env) filename,
                    m_paths = [], m_exports = ()\<rparr> request"
    by (simp add: loadCodeAsModule_def Let_def require_resolve_def split: sum.splits)
  ultimately show ?thesis
    by (simp add: require_resolve_def)
qed

theorem loaded_module_resolution_witness:
  "require_resolve sample_runtime sample_tree
     \<lparr>m_filename = ''lib/FooProxy.js'', m_id = ''lib/FooProxy.js'',
      m_paths = [], m_exports = ()\<rparr> ''rxjs'' = Inl ModuleNotFound
   \<and> require_resolve sample_runtime sample_tree
     \<lparr>m_filename = ''lib/main.js'', m_id = ''lib/main.js'',
      m_paths = [''lib/node_modules''], m_exports = ()\<rparr> ''rxjs''
       = Inr ''lib/node_modules/rxjs/index.js''
   \<and> require_resolve sample_runtime sample_tree
     \<lparr>m_filename = ''lib/FooProxy.js'', m_id = ''lib/FooProxy.js'',
      m_paths = [], m_exports = ()\<rparr> ''path'' = Inr ''path''
   \<and> require_resolve sample_runtime sample_tree
     \<lparr>m_filename = ''lib/FooProxy.js'', m_id = ''lib/FooProxy.js'',
      m_paths = [], m_exports = ()\<rparr> ''./service-parser'' = Inr ''lib/service-parser.js''"
proof -
  have names: "uriJoin sample_env (dirname sample_env) ''FooProxy.js'' = ''lib/FooProxy.js''"
    by (simp add: sample_env_def)
  have bare: "''rxjs'' \<notin> set (core_modules sample_runtime)" "\<not> is_path_request ''rxjs''"
      "global_folders sample_runtime = []"
    and core: "''path'' \<in> set (core_modules sample_runtime)"
    and rel: "''./service-parser'' \<notin> set (core_modules sample_runtime)"
      "is_path_request ''./service-parser''"
    by (simp_all add: sample_runtime_def is_path_request_def)
  have found: "load_path sample_tree
       (path_resolve sample_runtime (path_dirname sample_runtime ''lib/FooProxy.js'')
          ''./service-parser'') = Some ''lib/service-parser.js''"
    by (simp add: resolver_defs)
  have ordinary: "require_resolve sample_runtime sample_tree
     \<lparr>m_filename = ''lib/main.js'', m_id = ''lib/main.js'',
      m_paths = [''lib/node_modules''], m_exports = ()\<rparr> ''rxjs''
       = Inr ''lib/node_modules/rxjs/index.js''"
    by (simp add: resolver_defs)
  from loaded_module_resolution
         [of sample_env "''Foo:f()''" "''FooProxy.js''" "init sample_tree" "''rxjs''"
             sample_runtime sample_tree] bare names
  have a: "require_resolve sample_runtime sample_tree
     \<lparr>m_filename = ''lib/FooProxy.js'', m_id = ''lib/FooProxy.js'',
      m_paths = [], m_exports = ()\<rparr> ''rxjs'' = Inl ModuleNotFound"
    by simp
  from loaded_module_resolution
         [of sample_env "''Foo:f()''" "''FooProxy.js''" "init sample_tree" "''path''"
             sample_runtime sample_tree] core names
  have b: "require_resolve sample_runtime sample_tree
     \<lparr>m_filename = ''lib/FooProxy.js'', m_id = ''lib/FooProxy.js'',
      m_paths = [], m_exports = ()\<rparr> ''path'' = Inr ''path''"
    by simp
  from loaded_module_resolution
         [of sample_env "''Foo:f()''" "''FooProxy.js''" "init sample_tree" "''./service-parser''"
             sample_runtime sample_tree] rel names found
  have c: "require_resolve sample_runtime sample_tree
     \<lparr>m_filename = ''lib/FooProxy.js'', m_id = ''lib/FooProxy.js'',
      m_paths = [], m_exports = ()\<rparr> ''./service-parser'' = Inr ''lib/service-parser.js''"
    by simp
  from a ordinary b c show ?thesis by simp
qed

text \<open>
  C8. Whatever its arguments and the state, \<open>getProxy\<close> never calls the generator with
  \<open>preserveFunctionNames\<close> true. When it misses the factory cache it does what
  \<open>createProxyFactory(n, false, P)\<close> does: it throws what that throws, or caches the factory
  that returns. No other function of the module writes \<open>proxiesCache\<close>.
\<close>

theorem getProxy_never_preserves_names:
  assumes call: "getProxy env n P c s = (r, s')"
  shows "(\<exists>evs. trace s' = trace s @ evs \<and> True \<notin> set (generate_flags evs))
         \<and> (proxiesCache s P = None \<longrightarrow>
              (case createProxyFactory env n False P s of
                 (Inl e, s1) \<Rightarrow> r = Inl e \<and> s' = s1
               | (Inr f, s1) \<Rightarrow> proxiesCache s' P = Some f))
         \<and> proxiesCache (snd (createProxyFactory env n' b' P' s)) = proxiesCache s
         \<and> proxiesCache (snd (getDefinitions env P' s)) = proxiesCache s"
proof -
  from getProxy_events [OF call]
  have flags: "\<exists>evs. trace s' = trace s @ evs \<and> True \<notin> set (generate_flags evs)"
    by auto
  have built: "case createProxyFactory env n False P s of
                 (Inl e, s1) \<Rightarrow> r = Inl e \<and> s' = s1
               | (Inr f, s1) \<Rightarrow> proxiesCache s' P = Some f"
    if miss: "proxiesCache s P = None"
  proof (cases "createProxyFactory env n False P s")
    case (Pair r0 s1)
    show ?thesis
    proof (cases r0)
      case (Inl e)
      with Pair call show ?thesis by (simp add: getProxy_miss [OF miss])
    next
      case (Inr f)
      let ?s1 = "s1\<lparr>proxiesCache := (proxiesCache s1)(P \<mapsto> f)\<rparr>"
      have hit: "proxiesCache ?s1 P = Some f" by simp
      from Pair Inr call have "getProxy env n P c ?s1 = (r, s')"
        by (simp add: getProxy_miss [OF miss])
      from getProxy_keeps [OF this] have "keeps ?s1 s'" .
      from keeps_proxies [OF this hit] Pair Inr show ?thesis by simp
    qed
  qed
  from flags built createProxyFactory_frame(1) [OF surjective_pairing, of env n' b' P' s]
    getDefinitions_frame(1) [OF surjective_pairing, of env P' s]
  show ?thesis by blast
qed

theorem getProxy_never_preserves_names_witness:
  "True \<notin> set (generate_flags (trace (snd (getProxy sample_env ''Foo'' ''Foo.def'' 1 (init sample_files)))))
   \<and> generate_flags (trace (snd (getProxy sample_env ''Foo'' ''Foo.def'' 1 (init sample_files))))
       = [False]
   \<and> generate_flags
       (trace (snd (createProxyFactory sample_env ''Foo'' True ''Foo.def'' (init sample_files))))
       = [True]"
proof -
  have empty: "trace (init sample_files :: (string, nat, string \<times> nat) state) = []"
    by (simp add: init_def)
  have flags: "generate_flags (trace (snd (getProxy sample_env ''Foo'' ''Foo.def'' 1 (init sample_files))))
       = [False]"
    "generate_flags
       (trace (snd (createProxyFactory sample_env ''Foo'' True ''Foo.def'' (init sample_files))))
       = [True]"
    by (simp_all add: sample_defs)
  from getProxy_never_preserves_names [OF surjective_pairing, of sample_env "''Foo''" "''Foo.def''" 1 "init sample_files"]
    empty
  have "True \<notin> set (generate_flags (trace (snd (getProxy sample_env ''Foo'' ''Foo.def'' 1 (init sample_files)))))"
    by auto
  with flags show ?thesis by simp
qed

text \<open>
  C9. After a first \<open>getProxy(n1, P, c1)\<close> that missed the factory cache and returned, the
  cached factory for \<open>P\<close> is the one \<open>createProxyFactory(n1, false, P)\<close> built, from code
  generated under \<open>n1\<close>; every later \<open>getProxy(n2, P, c2)\<close> does exactly what
  \<open>getProxy(n1, P, c2)\<close> does, whatever \<open>n2\<close> is: it applies that factory and nothing else.
\<close>

theorem getProxy_hit_ignores_serviceName:
  assumes miss: "proxiesCache s0 P = None"
    and first: "getProxy env n1 P c1 s0 = (Inr p1, s1)"
  shows "\<exists>f s' defs code.
           createProxyFactory env n1 False P s0 = (Inr f, s')
           \<and> generateProxy env n1 False defs = Inr code
           \<and> compile env \<lparr>m_filename = uriJoin env (dirname env) (parsePathName env P @ ''Proxy.js''),
                           m_id = uriJoin env (dirname env) (parsePathName env P @ ''Proxy.js''),
                           m_paths = [], m_exports = ()\<rparr>
                code (parsePathName env P @ ''Proxy.js'') = Inr (fac_exports f)
           \<and> proxiesCache (run env calls s1) P = Some f
           \<and> getProxy env n2 P c2 (run env calls s1) = getProxy env n1 P c2 (run env calls s1)
           \<and> trace (snd (getProxy env n2 P c2 (run env calls s1)))
               = trace (run env calls s1) @ [EvApply (fac_id f) [Context c2]]"
proof -
  from getProxy_ok [OF first] miss obtain f s' where
    f1: "proxiesCache s1 P = Some f"
    and create: "createProxyFactory env n1 False P s0 = (Inr f, s')"
    by blast
  from createProxyFactory_ok [OF create] obtain defs code where
    gen: "generateProxy env n1 False defs = Inr code"
    and comp: "compile env \<lparr>m_filename = uriJoin env (dirname env) (parsePathName env P @ ''Proxy.js''),
                           m_id = uriJoin env (dirname env) (parsePathName env P @ ''Proxy.js''),
                           m_paths = [], m_exports = ()\<rparr>
                code (parsePathName env P @ ''Proxy.js'') = Inr (fac_exports f)"
    by blast
  have k: "keeps s1 (run env calls s1)" by (rule run_keeps)
  from keeps_proxies [OF k f1] have f2: "proxiesCache (run env calls s1) P = Some f" .
  have same: "getProxy env n2 P c2 (run env calls s1) = getProxy env n1 P c2 (run env calls s1)"
    by (simp only: getProxy_hit [OF f2])
  from create gen comp f2 same getProxy_hit_trace [OF f2, of env n2 c2]
  show ?thesis by blast
qed

theorem getProxy_hit_ignores_serviceName_witness:
  "getProxy sample_env ''Other'' ''Foo.def'' 2
     (run sample_env [] (snd (getProxy sample_env ''Foo'' ''Foo.def'' 1 (init sample_files))))
   = getProxy sample_env ''Foo'' ''Foo.def'' 2
       (run sample_env [] (snd (getProxy sample_env ''Foo'' ''Foo.def'' 1 (init sample_files))))
   \<and> fst (getProxy sample_env ''Other'' ''Foo.def'' 2
          (run sample_env [] (snd (getProxy sample_env ''Foo'' ''Foo.def'' 1 (init sample_files)))))
     = Inr \<lparr>proxy_id = 3, proxy_body = (''Foo:f()'', 2)\<rparr>"
proof -
  have miss: "proxiesCache (init sample_files :: (string, nat, string \<times> nat) state) ''Foo.def'' = None"
    by (simp add: init_def)
  have "fst (getProxy sample_env ''Foo'' ''Foo.def'' 1 (init sample_files))
          = Inr \<lparr>proxy_id = 2, proxy_body = (''Foo:f()'', 1)\<rparr>"
    by (simp add: sample_defs)
  then have first: "getProxy sample_env ''Foo'' ''Foo.def'' 1 (init sample_files)
      = (Inr \<lparr>proxy_id = 2, proxy_body = (''Foo:f()'', 1)\<rparr>,
         snd (getProxy sample_env ''Foo'' ''Foo.def'' 1 (init sample_files)))"
    by (simp add: prod_eq_iff)
  have body: "fst (getProxy sample_env ''Foo'' ''Foo.def'' 2
          (run sample_env [] (snd (getProxy sample_env ''Foo'' ''Foo.def'' 1 (init sample_files)))))
     = Inr \<lparr>proxy_id = 3, proxy_body = (''Foo:f()'', 2)\<rparr>"
    by (simp add: sample_defs)
  from getProxy_hit_ignores_serviceName [OF miss first, where calls = "[]" and ?n2.0 = "''Other''" and ?c2.0 = 2]
  have "getProxy sample_env ''Other'' ''Foo.def'' 2
     (run sample_env [] (snd (getProxy sample_env ''Foo'' ''Foo.def'' 1 (init sample_files))))
   = getProxy sample_env ''Foo'' ''Foo.def'' 2
       (run sample_env [] (snd (getProxy sample_env ''Foo'' ''Foo.def'' 1 (init sample_files))))"
    by blast
  with body show ?thesis by (simp del: run.simps)
qed

text \<open>
  C10. Two different path strings that resolve to the same file, neither seen before: two
  \<open>getProxy\<close> calls that return run the parser on that file twice, once for each path, and
  leave two \<open>Definitions\<close> objects of different identity and two factories of different
  identity, each cached under its own path string. On a hit \<open>getDefinitions\<close> returns the
  cached object with the state untouched, so no path is resolved.
\<close>

theorem distinct_paths_same_file_parsed_twice:
  assumes differ: "P1 \<noteq> P2"
    and d1: "definitionsCache s0 P1 = None" and d2: "definitionsCache s0 P2 = None"
    and f1: "proxiesCache s0 P1 = None" and f2: "proxiesCache s0 P2 = None"
    and r1: "resolveFilename env (fs s0) P1 = Inr rp"
    and r2: "resolveFilename env (fs s0) P2 = Inr rp"
    and call1: "getProxy env n P1 c s0 = (Inr p1, s1)"
    and call2: "getProxy env n P2 c s1 = (Inr p2, s2)"
  shows "\<exists>defs1 defs2 fac1 fac2.
           definitionsCache s2 P1 = Some defs1 \<and> definitionsCache s2 P2 = Some defs2
           \<and> def_id defs1 \<noteq> def_id defs2
           \<and> proxiesCache s2 P1 = Some fac1 \<and> proxiesCache s2 P2 = Some fac2
           \<and> fac_id fac1 \<noteq> fac_id fac2
           \<and> file_parse_count rp (trace s2) = file_parse_count rp (trace s0) + 2
           \<and> parse_count P1 (trace s2) = parse_count P1 (trace s0) + 1
           \<and> parse_count P2 (trace s2) = parse_count P2 (trace s0) + 1
           \<and> getDefinitions env P1 s2 = (Inr defs1, s2)
           \<and> getDefinitions env P2 s2 = (Inr defs2, s2)"
proof -
  from getProxy_full_miss [OF d1 f1 call1] r1 obtain src1 defs1 fac1 code1 where
    a: "def_id defs1 = next_id s0" "fac_id fac1 = Suc (next_id s0)"
      "definitionsCache s1 = (definitionsCache s0)(P1 \<mapsto> defs1)"
      "proxiesCache s1 = (proxiesCache s0)(P1 \<mapsto> fac1)"
      "next_id s1 = Suc (Suc (Suc (next_id s0)))" "fs s1 = fs s0"
    and t1: "trace s1 = trace s0 @
               [EvResolve P1, EvRead rp, EvParse P1 rp src1,
                EvGenerate n False (def_id defs1),
                EvCompile \<lparr>m_filename = uriJoin env (dirname env) (parsePathName env P1 @ ''Proxy.js''),
                           m_id = uriJoin env (dirname env) (parsePathName env P1 @ ''Proxy.js''),
                           m_paths = [], m_exports = ()\<rparr>
                  code1 (parsePathName env P1 @ ''Proxy.js''),
                EvInject (fac_id fac1) [RxObservable, TrackOperationTiming],
                EvApply (fac_id fac1) [Context c]]"
    by auto
  from a(3) d2 differ have d2': "definitionsCache s1 P2 = None" by simp
  from a(4) f2 differ have f2': "proxiesCache s1 P2 = None" by simp
  from r2 a(6) have r2': "resolveFilename env (fs s1) P2 = Inr rp" by simp
  from getProxy_full_miss [OF d2' f2' call2] r2' obtain src2 defs2 fac2 code2 where
    b: "def_id defs2 = next_id s1" "fac_id fac2 = Suc (next_id s1)"
      "definitionsCache s2 = (definitionsCache s1)(P2 \<mapsto> defs2)"
      "proxiesCache s2 = (proxiesCache s1)(P2 \<mapsto> fac2)"
    and t2: "trace s2 = trace s1 @
               [EvResolve P2, EvRead rp, EvParse P2 rp src2,
                EvGenerate n False (def_id defs2),
                EvCompile \<lparr>m_filename = uriJoin env (dirname env) (parsePathName env P2 @ ''Proxy.js''),
                           m_id = uriJoin env (dirname env) (parsePathName env P2 @ ''Proxy.js''),
                           m_paths = [], m_exports = ()\<rparr>
                  code2 (parsePathName env P2 @ ''Proxy.js''),
                EvInject (fac_id fac2) [RxObservable, TrackOperationTiming],
                EvApply (fac_id fac2) [Context c]]"
    by auto
  from a(3) b(3) differ have c1: "definitionsCache s2 P1 = Some defs1"
    and c2: "definitionsCache s2 P2 = Some defs2" by simp_all
  from a(4) b(4) differ have c3: "proxiesCache s2 P1 = Some fac1"
    and c4: "proxiesCache s2 P2 = Some fac2" by simp_all
  from a(1,5) b(1) have ids: "def_id defs1 \<noteq> def_id defs2" by simp
  from a(2,5) b(2) have fids: "fac_id fac1 \<noteq> fac_id fac2" by simp
  from t1 t2 have n1: "file_parse_count rp (trace s2) = file_parse_count rp (trace s0) + 2"
    by simp
  from t1 t2 differ have n2: "parse_count P1 (trace s2) = parse_count P1 (trace s0) + 1"
    and n3: "parse_count P2 (trace s2) = parse_count P2 (trace s0) + 1"
    by simp_all
  from c1 c2 c3 c4 ids fids n1 n2 n3 getDefinitions_hit [OF c1] getDefinitions_hit [OF c2]
  show ?thesis by blast
qed

theorem distinct_paths_same_file_parsed_twice_witness:
  "resolveFilename sample_env sample_files ''Foo.def'' = Inr ''Foo.def''
   \<and> resolveFilename sample_env sample_files ''./Foo.def'' = Inr ''Foo.def''
   \<and> file_parse_count ''Foo.def''
       (trace (snd (getProxy sample_env ''Foo'' ''./Foo.def'' 1
                      (snd (getProxy sample_env ''Foo'' ''Foo.def'' 1 (init sample_files)))))) = 2
   \<and> map_option def_id
       (definitionsCache (snd (getProxy sample_env ''Foo'' ''./Foo.def'' 1
                      (snd (getProxy sample_env ''Foo'' ''Foo.def'' 1 (init sample_files)))))
          ''Foo.def'') = Some 0
   \<and> map_option def_id
       (definitionsCache (snd (getProxy sample_env ''Foo'' ''./Foo.def'' 1
                      (snd (getProxy sample_env ''Foo'' ''Foo.def'' 1 (init sample_files)))))
          ''./Foo.def'') = Some 3"
proof -
  let ?s0 = "init sample_files :: (string, nat, string \<times> nat) state"
  have differ: "''Foo.def'' \<noteq> ''./Foo.def''" by simp
  have d1: "definitionsCache ?s0 ''Foo.def'' = None" and d2: "definitionsCache ?s0 ''./Foo.def'' = None"
    and f1: "proxiesCache ?s0 ''Foo.def'' = None" and f2: "proxiesCache ?s0 ''./Foo.def'' = None"
    and empty: "file_parse_count ''Foo.def'' (trace ?s0) = 0"
    by (simp_all add: init_def)
  have r1: "resolveFilename sample_env (fs ?s0) ''Foo.def'' = Inr ''Foo.def''"
    and r2: "resolveFilename sample_env (fs ?s0) ''./Foo.def'' = Inr ''Foo.def''"
    and r1': "resolveFilename sample_env sample_files ''Foo.def'' = Inr ''Foo.def''"
    and r2': "resolveFilename sample_env sample_files ''./Foo.def'' = Inr ''Foo.def''"
    by (simp_all add: sample_env_def init_def sample_files_def)
  have "fst (getProxy sample_env ''Foo'' ''Foo.def'' 1 ?s0)
          = Inr \<lparr>proxy_id = 2, proxy_body = (''Foo:f()'', 1)\<rparr>"
    by (simp add: sample_defs)
  then have call1: "getProxy sample_env ''Foo'' ''Foo.def'' 1 ?s0
      = (Inr \<lparr>proxy_id = 2, proxy_body = (''Foo:f()'', 1)\<rparr>,
         snd (getProxy sample_env ''Foo'' ''Foo.def'' 1 ?s0))"
    by (simp add: prod_eq_iff)
  have "fst (getProxy sample_env ''Foo'' ''./Foo.def'' 1 (snd (getProxy sample_env ''Foo'' ''Foo.def'' 1 ?s0)))
          = Inr \<lparr>proxy_id = 5, proxy_body = (''Foo:f()'', 1)\<rparr>"
    by (simp add: sample_defs)
  then have call2: "getProxy sample_env ''Foo'' ''./Foo.def'' 1 (snd (getProxy sample_env ''Foo'' ''Foo.def'' 1 ?s0))
      = (Inr \<lparr>proxy_id = 5, proxy_body = (''Foo:f()'', 1)\<rparr>,
         snd (getProxy sample_env ''Foo'' ''./Foo.def'' 1 (snd (getProxy sample_env ''Foo'' ''Foo.def'' 1 ?s0))))"
    by (simp add: prod_eq_iff)
  have ids: "map_option def_id
       (definitionsCache (snd (getProxy sample_env ''Foo'' ''./Foo.def'' 1
                      (snd (getProxy sample_env ''Foo'' ''Foo.def'' 1 ?s0))))
          ''Foo.def'') = Some 0"
    "map_option def_id
       (definitionsCache (snd (getProxy sample_env ''Foo'' ''./Foo.def'' 1
                      (snd (getProxy sample_env ''Foo'' ''Foo.def'' 1 ?s0))))
          ''./Foo.def'') = Some 3"
    by (simp_all add: sample_defs)
  from distinct_paths_same_file_parsed_twice [OF differ d1 d2 f1 f2 r1 r2 call1 call2] empty
  have "file_parse_count ''Foo.def''
       (trace (snd (getProxy sample_env ''Foo'' ''./Foo.def'' 1
                      (snd (getProxy sample_env ''Foo'' ''Foo.def'' 1 ?s0))))) = 2"
    by auto
  with r1' r2' ids show ?thesis by simp
qed

end
